theory Spec2Isabelle
  imports Main "HOL-Library.Word"
begin

section \<open>The native TAD stream codec and the JPEG codec's guards\<close>

text \<open>
  The development embeds the native-format codec of the library
  (\<^verbatim>\<open>FormatImportExportTAD\<close>: \<^verbatim>\<open>writeTadTagList\<close>, \<^verbatim>\<open>writeTad\<close>,
  \<^verbatim>\<open>readString\<close>, \<^verbatim>\<open>readTadTagList\<close>, \<^verbatim>\<open>readTadHeader\<close>,
  \<^verbatim>\<open>readTadData\<close>, \<^verbatim>\<open>skipTadData\<close>, \<^verbatim>\<open>arrayCount\<close>,
  \<^verbatim>\<open>readArray\<close>, \<^verbatim>\<open>hasMore\<close>, \<^verbatim>\<open>writeArray\<close>) and the argument
  checks of the JPEG codec (\<^verbatim>\<open>io-jpeg.cpp\<close>).

  Conventions of the embedding:
  \<^item> a byte is an \<open>8 word\<close>, a \<^verbatim>\<open>uint64_t\<close> a \<open>64 word\<close>; \<^verbatim>\<open>std::string\<close> and
    buffers are byte lists;
  \<^item> a C function that returns a status and writes through a pointer or a reference
    returns the tuple of both; the \<^verbatim>\<open>FILE*\<close> it advances is passed in and returned;
  \<^item> behaviour the C++ text leaves to the platform is a field of the record \<open>host\<close>:
    the byte order of \<^verbatim>\<open>memcpy\<close> on an integer, the signedness of \<^verbatim>\<open>char\<close>, the
    largest \<^verbatim>\<open>size_t\<close>, the largest block the allocator hands out, and the table of
    component sizes;
  \<^item> what C++ does not return from is a \<open>fault\<close>: an exception thrown by an
    allocation, a read outside a buffer, the use of a null stream. Functions that can
    fault return \<open>fault + result\<close>.
\<close>

subsection \<open>Bytes, errors, the host\<close>

type_synonym byte = "8 word"
type_synonym bytes = "byte list"

text \<open>The values of \<^verbatim>\<open>enum Error\<close> that the two codecs return.\<close>

datatype Error =
    ErrorNone
  | ErrorSysErrno
  | ErrorInvalidData
  | ErrorFeaturesUnsupported
  | ErrorSeekingNotSupported

datatype fault =
    BadAlloc      \<comment> \<open>an allocation threw (\<^verbatim>\<open>std::bad_alloc\<close>, \<^verbatim>\<open>std::length_error\<close>)\<close>
  | OutOfBounds   \<comment> \<open>a read past the end of a buffer: undefined behaviour\<close>
  | NullStream    \<comment> \<open>a stdio call on a null \<^verbatim>\<open>FILE*\<close>: undefined behaviour\<close>

record host =
  big_endian :: bool
  char_signed :: bool
  size_max :: nat
  mem_limit :: nat
  componentSize :: "nat \<Rightarrow> nat"

text \<open>\<open>differs\<close> is the operator \<^verbatim>\<open>!=\<close>.\<close>

definition differs :: "'a \<Rightarrow> 'a \<Rightarrow> bool" where
  "differs a b = (\<not> (a = b))"

subsection \<open>\<^verbatim>\<open>memcpy\<close> between a \<^verbatim>\<open>uint64_t\<close> and eight bytes\<close>

fun le_bytes :: "nat \<Rightarrow> nat \<Rightarrow> bytes" where
  "le_bytes 0 v = []"
| "le_bytes (Suc k) v = of_nat (v mod 256) # le_bytes k (v div 256)"

fun le_val :: "bytes \<Rightarrow> nat" where
  "le_val [] = 0"
| "le_val (b # bs) = unat b + 256 * le_val bs"

definition u64_bytes :: "host \<Rightarrow> 64 word \<Rightarrow> bytes" where
  "u64_bytes h w =
     (if big_endian h then rev (le_bytes 8 (unat w)) else le_bytes 8 (unat w))"

definition u64_of_bytes :: "host \<Rightarrow> bytes \<Rightarrow> 64 word" where
  "u64_of_bytes h bs = of_nat (le_val (if big_endian h then rev bs else bs))"

subsection \<open>The stdio stream\<close>

text \<open>
  A \<^verbatim>\<open>FILE\<close> is the bytes of the stream, the position of the next read, whether
  the medium can seek (a regular file can, a pipe cannot), and the room a writer has.

  For a reader, \<open>f_content\<close> is what the medium holds. The medium itself never fails
  on a read: a read is short only at the end of the data.

  For a writer, \<open>f_content\<close> is what the stream has taken so far, in the order in
  which it was written. stdio keeps the last of it in its buffer and passes it on to
  the medium when the buffer fills, at \<^verbatim>\<open>fflush\<close> and at \<^verbatim>\<open>fclose\<close>, so a byte
  of \<open>f_content\<close> need not be on the medium yet; whether it ever gets there shows
  when the buffer is written, at the latest in \<^verbatim>\<open>fclose\<close>, which is outside this
  model. \<open>f_space\<close> is the number of bytes the stream takes before a write falls
  short: the room of the buffer and of the medium together. The \<open>fwrite\<close> that goes
  beyond it returns a short count. Writers of this codec never seek, so \<open>fwrite\<close>
  appends.
\<close>

record FILE =
  f_content :: bytes
  f_pos :: nat
  f_seekable :: bool
  f_space :: nat

text \<open>
  \<^verbatim>\<open>fread(ptr, size, nmemb, f)\<close>: the bytes stored through \<open>ptr\<close>, the number of
  complete items, the stream. With \<open>size\<close> or \<open>nmemb\<close> zero it returns zero and leaves
  the stream alone (ISO C, 7.21.8.1); \<^verbatim>\<open>fwrite\<close> likewise (7.21.8.2).
\<close>

definition fread :: "nat \<Rightarrow> nat \<Rightarrow> FILE \<Rightarrow> bytes \<times> nat \<times> FILE" where
  "fread sz nmemb f =
     (if sz = 0 \<or> nmemb = 0 then ([], 0, f)
      else let got = take (sz * nmemb) (drop (f_pos f) (f_content f))
           in (got, length got div sz, f\<lparr>f_pos := f_pos f + length got\<rparr>))"

definition fwrite :: "bytes \<Rightarrow> nat \<Rightarrow> nat \<Rightarrow> FILE \<Rightarrow> nat \<times> FILE" where
  "fwrite buf sz nmemb f =
     (if sz = 0 \<or> nmemb = 0 then (0, f)
      else let out = take (min (sz * nmemb) (f_space f)) buf
           in (length out div sz,
               f\<lparr>f_content := f_content f @ out,
                 f_pos := length (f_content f) + length out,
                 f_space := f_space f - length out\<rparr>))"

text \<open>
  The stream of a writer after it has taken the bytes \<open>bs\<close>, all of them within
  its room.
\<close>

definition stream_after :: "FILE \<Rightarrow> bytes \<Rightarrow> FILE" where
  "stream_after f bs =
     (if bs = [] then f
      else f\<lparr>f_content := f_content f @ bs,
             f_pos := length (f_content f) + length bs,
             f_space := f_space f - length bs\<rparr>)"

definition OFF_MAX :: int where
  "OFF_MAX = 2 ^ 63 - 1"

datatype whence = SEEK_SET | SEEK_CUR

definition fseeko :: "FILE \<Rightarrow> int \<Rightarrow> whence \<Rightarrow> int \<times> FILE" where
  "fseeko f off w =
     (if f_seekable f then
        (case w of
           SEEK_SET \<Rightarrow>
             (if off < 0 \<or> OFF_MAX < off then (-1, f) else (0, f\<lparr>f_pos := nat off\<rparr>))
         | SEEK_CUR \<Rightarrow>
             (if int (f_pos f) + off < 0 \<or> OFF_MAX < int (f_pos f) + off then (-1, f)
              else (0, f\<lparr>f_pos := nat (int (f_pos f) + off)\<rparr>)))
      else (-1, f))"

definition ftello :: "FILE \<Rightarrow> int" where
  "ftello f = (if f_seekable f then int (f_pos f) else -1)"

definition rewind :: "FILE \<Rightarrow> FILE" where
  "rewind f = (if f_seekable f then f\<lparr>f_pos := 0\<rparr> else f)"

text \<open>The conversion of a \<^verbatim>\<open>size_t\<close> argument to the signed 64-bit \<^verbatim>\<open>off_t\<close>.\<close>

definition to_off_t :: "nat \<Rightarrow> int" where
  "to_off_t n = (if int (n mod 2 ^ 64) \<le> OFF_MAX then int (n mod 2 ^ 64)
                 else int (n mod 2 ^ 64) - 2 ^ 64)"

subsection \<open>TagList and ArrayContainer\<close>

text \<open>
  The classes \<^verbatim>\<open>TagList\<close> and \<^verbatim>\<open>ArrayContainer\<close> are declared in headers that are
  not among the sources; the codec only calls them.
\<close>

type_synonym TagList = "(bytes \<times> bytes) list"

text \<open>
  Modelled from the spec: \<^verbatim>\<open>TagList::set\<close>, of the missing header. "insertion order is
  preserved for iteration but keys are unique (setting an existing key overwrites its
  value)".
\<close>

fun TagList_set :: "TagList \<Rightarrow> bytes \<Rightarrow> bytes \<Rightarrow> TagList" where
  "TagList_set [] k v = [(k, v)]"
| "TagList_set ((k', v') # rest) k v =
     (if k' = k then (k, v) # rest else (k', v') # TagList_set rest k v)"

record ArrayContainer =
  dimensions :: "nat list"
  componentCount :: nat
  componentType :: nat
  globalTagList :: TagList
  componentTagList :: "TagList list"
  dimensionTagList :: "TagList list"
  data :: bytes

definition dimensionCount :: "ArrayContainer \<Rightarrow> nat" where
  "dimensionCount a = length (dimensions a)"

text \<open>
  Modelled from the spec: \<^verbatim>\<open>ArrayContainer::dataSize\<close>, of the missing header.
  "byteSize(data) == componentSize(componentType) * componentCount * \<Pi>(dimensions)".
\<close>

definition dataSize :: "host \<Rightarrow> ArrayContainer \<Rightarrow> nat" where
  "dataSize h a =
     componentSize h (componentType a) * componentCount a * prod_list (dimensions a)"

text \<open>
  Modelled from the spec: the default constructor \<^verbatim>\<open>ArrayContainer()\<close>, of the missing
  header: the degenerate array without dimensions, components or data.
\<close>

definition ArrayContainer_default :: ArrayContainer where
  "ArrayContainer_default =
     \<lparr>dimensions = [], componentCount = 0, componentType = 0, globalTagList = [],
      componentTagList = [], dimensionTagList = [], data = []\<rparr>"

text \<open>
  Modelled from the spec: the constructor \<^verbatim>\<open>ArrayContainer(dimensions, components,
  type)\<close>, of the missing header. "construction must reject sizes whose product cannot
  be represented or allocated"; the buffer is "allocated, zero-initialized or
  uninitialized" and every tag list starts empty.
\<close>

definition ArrayContainer_new :: "host \<Rightarrow> nat list \<Rightarrow> nat \<Rightarrow> nat \<Rightarrow> fault + ArrayContainer" where
  "ArrayContainer_new h dims comps ty =
     (if size_max h < componentSize h ty * comps * prod_list dims
         \<or> mem_limit h < componentSize h ty * comps * prod_list dims
      then Inl BadAlloc
      else Inr \<lparr>dimensions = dims, componentCount = comps, componentType = ty,
                globalTagList = [],
                componentTagList = replicate comps [],
                dimensionTagList = replicate (length dims) [],
                data = replicate (componentSize h ty * comps * prod_list dims) 0\<rparr>)"

text \<open>The class invariant of a container that application code hands to a writer.\<close>

definition wf_container :: "host \<Rightarrow> ArrayContainer \<Rightarrow> bool" where
  "wf_container h a =
     (length (componentTagList a) = componentCount a
      \<and> length (dimensionTagList a) = dimensionCount a
      \<and> length (data a) = dataSize h a
      \<and> componentCount a \<le> size_max h
      \<and> dimensionCount a \<le> size_max h
      \<and> list_all (\<lambda>d. d \<le> size_max h) (dimensions a)
      \<and> size_max h < 2 ^ 64)"

subsection \<open>Writing a record\<close>

text \<open>
  \<^verbatim>\<open>writeTadTagList\<close>: the vector starts as eight zero bytes, receives every key and
  every value with its terminating NUL, then its first eight bytes are overwritten with
  the number of bytes that follow, and the whole goes out in one \<^verbatim>\<open>fwrite\<close>.
\<close>

definition writeTadTagList :: "host \<Rightarrow> FILE \<Rightarrow> TagList \<Rightarrow> bool \<times> FILE" where
  "writeTadTagList h f tags =
     (let data0 = fold (\<lambda>(k, v) d. d @ (k @ [0]) @ (v @ [0])) tags (replicate 8 0);
          n = length data0 - 8;
          data1 = u64_bytes h (of_nat n) @ drop 8 data0
      in case fwrite data1 (length data1) 1 f of (r, f') \<Rightarrow> (r = 1, f'))"

text \<open>The two loops of \<^verbatim>\<open>writeTad\<close> over tag lists: the first failure returns.\<close>

fun writeTagLists :: "host \<Rightarrow> FILE \<Rightarrow> TagList list \<Rightarrow> bool \<times> FILE" where
  "writeTagLists h f [] = (True, f)"
| "writeTagLists h f (tags # rest) =
     (case writeTadTagList h f tags of
        (ok, f') \<Rightarrow> if ok then writeTagLists h f' rest else (False, f'))"

text \<open>The vector \<^verbatim>\<open>start\<close> of \<^verbatim>\<open>writeTad\<close> once every \<^verbatim>\<open>memcpy\<close> is done.\<close>

definition tad_start :: "host \<Rightarrow> ArrayContainer \<Rightarrow> bytes" where
  "tad_start h a =
     [0x54, 0x41, 0x44, 0, of_nat (componentType a)]
     @ u64_bytes h (of_nat (componentCount a))
     @ u64_bytes h (of_nat (dimensionCount a))
     @ concat (map (\<lambda>d. u64_bytes h (of_nat (dimensions a ! d))) [0..<dimensionCount a])"

definition writeTad :: "host \<Rightarrow> FILE \<Rightarrow> ArrayContainer \<Rightarrow> bool \<times> FILE" where
  "writeTad h f a =
     (case fwrite (tad_start h a) (length (tad_start h a)) 1 f of (r, f1) \<Rightarrow>
      if r = 1 then
        (case writeTadTagList h f1 (globalTagList a) of (ok1, f2) \<Rightarrow>
         if ok1 then
           (case writeTagLists h f2
                   (map (\<lambda>c. componentTagList a ! c) [0..<componentCount a]) of (ok2, f3) \<Rightarrow>
            if ok2 then
              (case writeTagLists h f3
                      (map (\<lambda>d. dimensionTagList a ! d) [0..<dimensionCount a]) of (ok3, f4) \<Rightarrow>
               if ok3 then
                 (case fwrite (data a) (dataSize h a) 1 f4 of (r5, f5) \<Rightarrow> (r5 = 1, f5))
               else (False, f4))
            else (False, f3))
         else (False, f2))
      else (False, f1))"

subsection \<open>Reading a tag block\<close>

text \<open>\<^verbatim>\<open>c < 32\<close> on a \<^verbatim>\<open>char\<close>: signed or unsigned as the host has it.\<close>

definition char_less :: "host \<Rightarrow> byte \<Rightarrow> int \<Rightarrow> bool" where
  "char_less h c n = (if char_signed h then sint c < n else uint c < n)"

text \<open>
  The loop of \<^verbatim>\<open>readString\<close>. The argument is what lies between the pointer \<open>data\<close>
  and the end of the vector it points into; the loop itself knows no end, so running
  off the list is a read outside the vector. The result is whether the scan ended on a
  NUL, and the value of \<open>i\<close> then: the index after the NUL.
\<close>

fun readString_scan :: "host \<Rightarrow> bytes \<Rightarrow> nat \<Rightarrow> fault + bool \<times> nat" where
  "readString_scan h [] i = Inl OutOfBounds"
| "readString_scan h (c # cs) i =
     (if c = 0 then Inr (True, Suc i)
      else if char_less h c 32 \<or> c = 127 then Inr (False, Suc i)
      else readString_scan h cs (Suc i))"

text \<open>
  \<^verbatim>\<open>readString\<close>: \<open>None\<close> is the return value \<open>false\<close> (neither \<open>s\<close> nor \<open>len\<close> is
  assigned), \<open>Some (s, len)\<close> the return value \<open>true\<close>. \<^verbatim>\<open>std::string(data)\<close> is the
  bytes before the first NUL.
\<close>

definition readString :: "host \<Rightarrow> bytes \<Rightarrow> fault + (bytes \<times> nat) option" where
  "readString h buf =
     (case readString_scan h buf 0 of
        Inl x \<Rightarrow> Inl x
      | Inr (ok, i) \<Rightarrow>
          if ok then Inr (Some (takeWhile (\<lambda>c. differs c 0) buf, i)) else Inr None)"

text \<open>
  The \<^verbatim>\<open>for\<close> loop of \<^verbatim>\<open>readTadTagList\<close> over the payload \<open>d\<close>, from index \<open>i\<close>.
\<close>

function readTadTagList_loop :: "host \<Rightarrow> bytes \<Rightarrow> nat \<Rightarrow> TagList \<Rightarrow> fault + Error \<times> TagList" where
  "readTadTagList_loop h d i tags =
     (if i < length d then
        (case readString h (drop i d) of
           Inl x \<Rightarrow> Inl x
         | Inr None \<Rightarrow> Inr (ErrorInvalidData, tags)
         | Inr (Some (key, keyLen)) \<Rightarrow>
             if length d \<le> i + keyLen + 1 then Inr (ErrorInvalidData, tags)
             else
               (case readString h (drop (i + keyLen + 1) d) of
                  Inl x \<Rightarrow> Inl x
                | Inr None \<Rightarrow> Inr (ErrorInvalidData, tags)
                | Inr (Some (val, valueLen)) \<Rightarrow>
                    readTadTagList_loop h d (i + keyLen + 1 + valueLen + 1)
                      (TagList_set tags key val)))
      else Inr (ErrorNone, tags))"
  by pat_completeness auto
termination
  by (relation "measure (\<lambda>(h, d, i, tags). length d - i)") auto

definition readTadTagList :: "host \<Rightarrow> FILE \<Rightarrow> TagList \<Rightarrow> fault + Error \<times> TagList \<times> FILE" where
  "readTadTagList h f tags =
     (case fread 8 1 f of (nb, r, f1) \<Rightarrow>
      if r = 1 then
        (if size_max h < unat (u64_of_bytes h nb) then Inr (ErrorInvalidData, tags, f1)
         else if mem_limit h < unat (u64_of_bytes h nb) then Inl BadAlloc
         else
           (case fread (unat (u64_of_bytes h nb)) 1 f1 of (d, r2, f2) \<Rightarrow>
            if r2 = 1 then
              (case readTadTagList_loop h d 0 tags of
                 Inl x \<Rightarrow> Inl x
               | Inr (e, tags') \<Rightarrow> Inr (e, tags', f2))
            else Inr (ErrorSysErrno, tags, f2)))
      else Inr (ErrorSysErrno, tags, f1))"

subsection \<open>Reading a record\<close>

text \<open>
  The dimension sizes as \<^verbatim>\<open>readTadHeader\<close> stores them in a \<^verbatim>\<open>size_t\<close> vector: read
  in place where \<^verbatim>\<open>size_t\<close> has 64 bits, and assigned from a \<^verbatim>\<open>uint64_t\<close> (which
  truncates) where it is narrower.
\<close>

definition read_dimensions :: "host \<Rightarrow> nat \<Rightarrow> bytes \<Rightarrow> nat list" where
  "read_dimensions h n db =
     map (\<lambda>d. unat (u64_of_bytes h (take 8 (drop (8 * d) db))) mod (size_max h + 1)) [0..<n]"

text \<open>
  The loops of \<^verbatim>\<open>readTadHeader\<close> over the component and the dimension tag lists of the
  container just constructed: each list is filled in place, the first error returns.
\<close>

fun readTagLists :: "host \<Rightarrow> FILE \<Rightarrow> TagList list \<Rightarrow> fault + Error \<times> TagList list \<times> FILE" where
  "readTagLists h f [] = Inr (ErrorNone, [], f)"
| "readTagLists h f (tags # rest) =
     (case readTadTagList h f tags of
        Inl x \<Rightarrow> Inl x
      | Inr (e, tags', f') \<Rightarrow>
          if e = ErrorNone then
            (case readTagLists h f' rest of
               Inl x \<Rightarrow> Inl x
             | Inr (e', rest', f'') \<Rightarrow> Inr (e', tags' # rest', f''))
          else Inr (e, tags' # rest, f'))"

definition readTadHeader :: "host \<Rightarrow> FILE \<Rightarrow> ArrayContainer \<Rightarrow> fault + Error \<times> ArrayContainer \<times> FILE" where
  "readTadHeader h f array =
     (case fread 21 1 f of (start, r, f1) \<Rightarrow>
      if r = 1 then
        (if differs (start ! 0) 0x54 \<or> differs (start ! 1) 0x41 \<or> differs (start ! 2) 0x44
            \<or> differs (start ! 3) 0
            \<or> 15 < start ! 4
            \<or> size_max h < unat (u64_of_bytes h (take 8 (drop 5 start)))
            \<or> size_max h < unat (u64_of_bytes h (take 8 (drop 13 start)))
         then Inr (ErrorInvalidData, array, f1)
         else if mem_limit h < 8 * unat (u64_of_bytes h (take 8 (drop 13 start))) then Inl BadAlloc
         else
           (case fread 8 (unat (u64_of_bytes h (take 8 (drop 13 start)))) f1 of (db, r2, f2) \<Rightarrow>
            if r2 = unat (u64_of_bytes h (take 8 (drop 13 start))) then
              (case ArrayContainer_new h
                      (read_dimensions h (unat (u64_of_bytes h (take 8 (drop 13 start)))) db)
                      (unat (u64_of_bytes h (take 8 (drop 5 start))))
                      (unat (start ! 4)) of
                 Inl x \<Rightarrow> Inl x
               | Inr a0 \<Rightarrow>
                   (case readTadTagList h f2 (globalTagList a0) of
                      Inl x \<Rightarrow> Inl x
                    | Inr (e1, g, f3) \<Rightarrow>
                        if e1 = ErrorNone then
                          (case readTagLists h f3 (componentTagList a0) of
                             Inl x \<Rightarrow> Inl x
                           | Inr (e2, cs, f4) \<Rightarrow>
                               if e2 = ErrorNone then
                                 (case readTagLists h f4 (dimensionTagList a0) of
                                    Inl x \<Rightarrow> Inl x
                                  | Inr (e3, ds, f5) \<Rightarrow>
                                      Inr (e3, a0\<lparr>globalTagList := g, componentTagList := cs,
                                                  dimensionTagList := ds\<rparr>, f5))
                               else Inr (e2, a0\<lparr>globalTagList := g, componentTagList := cs\<rparr>, f4))
                        else Inr (e1, a0\<lparr>globalTagList := g\<rparr>, f3)))
            else Inr (ErrorSysErrno, array, f2)))
      else Inr (ErrorSysErrno, array, f1))"

definition readTadData :: "host \<Rightarrow> FILE \<Rightarrow> ArrayContainer \<Rightarrow> bool \<times> ArrayContainer \<times> FILE" where
  "readTadData h f array =
     (case fread (dataSize h array) 1 f of
        (d, r, f') \<Rightarrow> (r = 1, array\<lparr>data := d @ drop (length d) (data array)\<rparr>, f'))"

definition skipTadData :: "host \<Rightarrow> FILE \<Rightarrow> ArrayContainer \<Rightarrow> bool \<times> FILE" where
  "skipTadData h f array =
     (case fseeko f (to_off_t (dataSize h array)) SEEK_CUR of (r, f') \<Rightarrow> (r = 0, f'))"

subsection \<open>The stream object\<close>

record TAD =
  tad_f :: "FILE option"
  tad_arrayCount :: int
  tad_arrayOffsets :: "int list"

text \<open>The constructor \<^verbatim>\<open>FormatImportExportTAD()\<close>.\<close>

definition TAD_new :: TAD where
  "TAD_new = \<lparr>tad_f = None, tad_arrayCount = -2, tad_arrayOffsets = []\<rparr>"

text \<open>
  \<^verbatim>\<open>openForReading\<close> and \<^verbatim>\<open>openForWriting\<close> store what \<^verbatim>\<open>fopen\<close> returned; the
  argument \<open>fo\<close> is that return value.
\<close>

definition openForReading :: "TAD \<Rightarrow> FILE option \<Rightarrow> Error \<times> TAD" where
  "openForReading st fo = (case fo of None \<Rightarrow> ErrorSysErrno | Some f \<Rightarrow> ErrorNone, st\<lparr>tad_f := fo\<rparr>)"

definition openForWriting :: "TAD \<Rightarrow> FILE option \<Rightarrow> Error \<times> TAD" where
  "openForWriting st fo = (case fo of None \<Rightarrow> ErrorSysErrno | Some f \<Rightarrow> ErrorNone, st\<lparr>tad_f := fo\<rparr>)"

text \<open>\<^verbatim>\<open>fgetc\<close> followed by \<^verbatim>\<open>ungetc\<close>: the stream is as it was.\<close>

definition FILE_hasMore :: "FILE \<Rightarrow> bool" where
  "FILE_hasMore f = (f_pos f < length (f_content f))"

definition hasMore :: "TAD \<Rightarrow> fault + bool" where
  "hasMore st = (case tad_f st of None \<Rightarrow> Inl NullStream | Some f \<Rightarrow> Inr (FILE_hasMore f))"

definition writeArray :: "host \<Rightarrow> TAD \<Rightarrow> ArrayContainer \<Rightarrow> fault + Error \<times> TAD" where
  "writeArray h st array =
     (case tad_f st of
        None \<Rightarrow> Inl NullStream
      | Some f \<Rightarrow>
          (case writeTad h f array of
             (ok, f') \<Rightarrow> Inr (if ok then ErrorNone else ErrorSysErrno, st\<lparr>tad_f := Some f'\<rparr>)))"

subsection \<open>Counting the records\<close>

definition INT_MAX :: nat where
  "INT_MAX = 2 ^ 31 - 1"

text \<open>The conversion of a \<^verbatim>\<open>size_t\<close> to the 32-bit \<^verbatim>\<open>int\<close>.\<close>

definition to_int :: "nat \<Rightarrow> int" where
  "to_int n = (if n mod 2 ^ 32 \<le> INT_MAX then int (n mod 2 ^ 32) else int (n mod 2 ^ 32) - 2 ^ 32)"

text \<open>
  How the \<^verbatim>\<open>while (hasMore())\<close> loop of \<^verbatim>\<open>arrayCount\<close> ends: the condition became
  false (\<open>ScanDone\<close>); one of the two exits that clear the offsets and cache \<open>-1\<close>
  (\<open>ScanAbort\<close>); or the bare \<^verbatim>\<open>return -1\<close> after a header that did not parse or
  data that could not be skipped, which caches nothing and keeps the offsets pushed so
  far (\<open>ScanFail\<close>).
\<close>

datatype scan_exit = ScanDone | ScanAbort | ScanFail

text \<open>
  The loop. Nothing in it bounds the number of rounds in every state (a data size that
  converts to a negative \<^verbatim>\<open>off_t\<close> seeks backwards), so it is a partial function:
  \<open>None\<close> is the loop that does not end.
\<close>

partial_function (option) arrayCount_scan ::
    "host \<Rightarrow> FILE \<Rightarrow> int list \<Rightarrow> (fault + scan_exit \<times> FILE \<times> int list) option" where
  "arrayCount_scan h f offs =
     (if FILE_hasMore f then
        (if ftello f < 0 then Some (Inr (ScanAbort, f, offs))
         else
           (case readTadHeader h f ArrayContainer_default of
              Inl x \<Rightarrow> Some (Inl x)
            | Inr (e, array, f1) \<Rightarrow>
                if e = ErrorNone then
                  (case skipTadData h f1 array of
                     (ok, f2) \<Rightarrow>
                       if ok then
                         (if length (offs @ [ftello f]) = INT_MAX \<and> FILE_hasMore f2
                          then Some (Inr (ScanAbort, f2, offs @ [ftello f]))
                          else arrayCount_scan h f2 (offs @ [ftello f]))
                       else Some (Inr (ScanFail, f2, offs)))
                else Some (Inr (ScanFail, f1, offs))))
      else Some (Inr (ScanDone, f, offs)))"

definition arrayCount :: "host \<Rightarrow> TAD \<Rightarrow> (fault + int \<times> TAD) option" where
  "arrayCount h st =
     (if -1 \<le> tad_arrayCount st then Some (Inr (tad_arrayCount st, st))
      else
        (case tad_f st of
           None \<Rightarrow> Some (Inr (-1, st))
         | Some f \<Rightarrow>
             if ftello f < 0 then Some (Inr (-1, st\<lparr>tad_arrayCount := -1\<rparr>))
             else
               (case arrayCount_scan h (rewind f) (tad_arrayOffsets st) of
                  None \<Rightarrow> None
                | Some (Inl x) \<Rightarrow> Some (Inl x)
                | Some (Inr (ScanAbort, f', offs)) \<Rightarrow>
                    Some (Inr (-1, \<lparr>tad_f = Some f', tad_arrayCount = -1, tad_arrayOffsets = []\<rparr>))
                | Some (Inr (ScanFail, f', offs)) \<Rightarrow>
                    Some (Inr (-1, \<lparr>tad_f = Some f', tad_arrayCount = tad_arrayCount st,
                                    tad_arrayOffsets = offs\<rparr>))
                | Some (Inr (ScanDone, f', offs)) \<Rightarrow>
                    (case fseeko f' (ftello f) SEEK_SET of
                       (r, f'') \<Rightarrow>
                         if r < 0 then
                           Some (Inr (-1, \<lparr>tad_f = Some f'', tad_arrayCount = -1,
                                           tad_arrayOffsets = []\<rparr>))
                         else
                           Some (Inr (to_int (length offs),
                                      \<lparr>tad_f = Some f'', tad_arrayCount = to_int (length offs),
                                       tad_arrayOffsets = offs\<rparr>))))))"

subsection \<open>Reading by index or in sequence\<close>

text \<open>
  The second half of \<^verbatim>\<open>readArray\<close>, from "Read the TAD header" on. \<open>err\<close> is what
  \<^verbatim>\<open>*error\<close> holds on entry: a successful read does not assign it.
\<close>

definition readArray_record :: "host \<Rightarrow> Error \<Rightarrow> TAD \<Rightarrow> fault + ArrayContainer \<times> Error \<times> TAD" where
  "readArray_record h err st =
     (case tad_f st of
        None \<Rightarrow> Inl NullStream
      | Some f \<Rightarrow>
          (case readTadHeader h f ArrayContainer_default of
             Inl x \<Rightarrow> Inl x
           | Inr (e, array, f1) \<Rightarrow>
               if e = ErrorNone then
                 (case readTadData h f1 array of
                    (ok, array', f2) \<Rightarrow>
                      if ok then Inr (array', err, st\<lparr>tad_f := Some f2\<rparr>)
                      else Inr (ArrayContainer_default, ErrorSysErrno, st\<lparr>tad_f := Some f2\<rparr>))
               else Inr (ArrayContainer_default, e, st\<lparr>tad_f := Some f1\<rparr>)))"

definition readArray ::
    "host \<Rightarrow> Error \<Rightarrow> int \<Rightarrow> TAD \<Rightarrow> (fault + ArrayContainer \<times> Error \<times> TAD) option" where
  "readArray h err arrayIndex st =
     (if 0 \<le> arrayIndex then
        (case arrayCount h st of
           None \<Rightarrow> None
         | Some (Inl x) \<Rightarrow> Some (Inl x)
         | Some (Inr (n1, st1)) \<Rightarrow>
             if n1 < 0 then Some (Inr (ArrayContainer_default, ErrorSeekingNotSupported, st1))
             else
               (case arrayCount h st1 of
                  None \<Rightarrow> None
                | Some (Inl x) \<Rightarrow> Some (Inl x)
                | Some (Inr (n2, st2)) \<Rightarrow>
                    if n2 \<le> arrayIndex then Some (Inr (ArrayContainer_default, ErrorInvalidData, st2))
                    else
                      (case tad_f st2 of
                         None \<Rightarrow> Some (Inl NullStream)
                       | Some f \<Rightarrow>
                           if length (tad_arrayOffsets st2) \<le> nat arrayIndex then Some (Inl OutOfBounds)
                           else
                             (case fseeko f (tad_arrayOffsets st2 ! nat arrayIndex) SEEK_SET of
                                (r, f') \<Rightarrow>
                                  if r < 0 then
                                    Some (Inr (ArrayContainer_default, ErrorSysErrno,
                                               st2\<lparr>tad_f := Some f'\<rparr>))
                                  else Some (readArray_record h err (st2\<lparr>tad_f := Some f'\<rparr>))))))
      else Some (readArray_record h err st))"

subsection \<open>The JPEG codec: what it refuses before it calls libjpeg\<close>

record JPEG =
  jpeg_f :: "FILE option"
  jpeg_fileName :: string

text \<open>
  \<^verbatim>\<open>FormatImportExportJPEG::openForWriting\<close>. \<open>out\<close> is \<^verbatim>\<open>stdout\<close> and \<open>fo\<close> is
  what \<^verbatim>\<open>fopen(fileName, "wb")\<close> returns.
\<close>

definition JPEG_openForWriting :: "JPEG \<Rightarrow> string \<Rightarrow> bool \<Rightarrow> FILE \<Rightarrow> FILE option \<Rightarrow> Error \<times> JPEG" where
  "JPEG_openForWriting st fileName append_flag out fo =
     (if append_flag then (ErrorFeaturesUnsupported, st)
      else if fileName = ''-'' then (ErrorNone, st\<lparr>jpeg_f := Some out\<rparr>)
      else
        (case fo of
           None \<Rightarrow> (ErrorSysErrno, st\<lparr>jpeg_f := None\<rparr>)
         | Some f \<Rightarrow> (ErrorNone, st\<lparr>jpeg_f := Some f, jpeg_fileName := fileName\<rparr>)))"

text \<open>\<^verbatim>\<open>ArrayContainer::dimension(d)\<close>.\<close>

definition dimension :: "ArrayContainer \<Rightarrow> nat \<Rightarrow> nat" where
  "dimension a d = dimensions a ! d"

text \<open>
  What the libjpeg calls of \<^verbatim>\<open>writeArray\<close> can end in: \<^verbatim>\<open>error_exit\<close> jumping back
  to the \<^verbatim>\<open>setjmp\<close>, a failing \<^verbatim>\<open>fflush\<close>, or a written image.
\<close>

datatype jpeg_outcome = JpegErrorExit | JpegFlushFailed | JpegWritten

text \<open>
  \<^verbatim>\<open>FormatImportExportJPEG::writeArray\<close>. \<open>uint8\<close> is the value of that enumerator of
  \<^verbatim>\<open>Type\<close> (declared in a header that is not among the sources), \<open>libjpeg\<close> the
  compression itself.
\<close>

definition JPEG_writeArray ::
    "nat \<Rightarrow> (ArrayContainer \<Rightarrow> FILE option \<Rightarrow> jpeg_outcome \<times> FILE option) \<Rightarrow> JPEG \<Rightarrow> ArrayContainer
      \<Rightarrow> Error \<times> JPEG" where
  "JPEG_writeArray uint8 libjpeg st array =
     (if differs (dimensionCount array) 2
         \<or> dimension array 0 \<le> 0 \<or> dimension array 1 \<le> 0
         \<or> 0x7fffffff < dimension array 0 \<or> 0x7fffffff < dimension array 1
         \<or> differs (componentType array) uint8
         \<or> (differs (componentCount array) 1 \<and> differs (componentCount array) 3)
      then (ErrorFeaturesUnsupported, st)
      else
        (case libjpeg array (jpeg_f st) of
           (JpegErrorExit, f') \<Rightarrow> (ErrorInvalidData, st\<lparr>jpeg_f := f'\<rparr>)
         | (JpegFlushFailed, f') \<Rightarrow> (ErrorSysErrno, st\<lparr>jpeg_f := f'\<rparr>)
         | (JpegWritten, f') \<Rightarrow> (ErrorNone, st\<lparr>jpeg_f := f'\<rparr>)))"

subsection \<open>The record layout the format description gives\<close>

text \<open>
  The format description, in its own words: "magic TAD (bytes 0x54,0x41,0x44);
  reserved, must be 0; component type code; componentCount; dimensionCount; dimension
  sizes; global tag block; componentCount tag blocks; dimensionCount tag blocks; raw
  data", "all multi-byte integers 64-bit, host-native byte order", and a tag block is
  "8 bytes length n + n bytes of NUL-terminated key/value string pairs, repeated end to
  end". The definitions below follow that description, not the writer: the bytes of an
  integer are taken from the word by shifting, most significant byte first on a
  big-endian host and last on a little-endian one.
\<close>

definition native_u64 :: "host \<Rightarrow> 64 word \<Rightarrow> bytes" where
  "native_u64 h w =
     (if big_endian h then map (\<lambda>k. ucast (drop_bit (8 * (7 - k)) w)) [0..<8]
      else map (\<lambda>k. ucast (drop_bit (8 * k) w)) [0..<8])"

definition tag_payload :: "TagList \<Rightarrow> bytes" where
  "tag_payload tags = concat (map (\<lambda>(k, v). k @ [0] @ v @ [0]) tags)"

definition tag_block :: "host \<Rightarrow> TagList \<Rightarrow> bytes" where
  "tag_block h tags = native_u64 h (of_nat (length (tag_payload tags))) @ tag_payload tags"

definition record_header :: "host \<Rightarrow> ArrayContainer \<Rightarrow> bytes" where
  "record_header h a =
     [0x54, 0x41, 0x44] @ [0] @ [of_nat (componentType a)]
     @ native_u64 h (of_nat (componentCount a))
     @ native_u64 h (of_nat (length (dimensions a)))
     @ concat (map (\<lambda>d. native_u64 h (of_nat d)) (dimensions a))"

definition record_layout :: "host \<Rightarrow> ArrayContainer \<Rightarrow> bytes" where
  "record_layout h a =
     record_header h a
     @ tag_block h (globalTagList a)
     @ concat (map (tag_block h) (componentTagList a))
     @ concat (map (tag_block h) (dimensionTagList a))
     @ data a"

subsection \<open>Corrupt streams, in the words of the claims\<close>

text \<open>The bytes of the stream from its position on.\<close>

definition unread :: "FILE \<Rightarrow> bytes" where
  "unread f = drop (f_pos f) (f_content f)"

text \<open>
  "The magic bytes are altered, or the reserved byte is nonzero, or the component-type
  code byte is 16 or greater", of the bytes \<open>u\<close> a record starts with.
\<close>

definition preamble_corrupt :: "bytes \<Rightarrow> bool" where
  "preamble_corrupt u = (take 3 u \<noteq> [0x54, 0x41, 0x44] \<or> u ! 3 \<noteq> 0 \<or> 16 \<le> u ! 4)"

text \<open>
  "A tag block declares a length extending beyond the available bytes": the eight
  bytes of the length are there, the length is one the host can represent and
  allocate, and fewer bytes than it says follow.
\<close>

definition tag_block_truncated :: "host \<Rightarrow> FILE \<Rightarrow> bool" where
  "tag_block_truncated h f =
     (8 \<le> length (unread f)
      \<and> unat (u64_of_bytes h (take 8 (unread f))) \<le> size_max h
      \<and> unat (u64_of_bytes h (take 8 (unread f))) \<le> mem_limit h
      \<and> length (unread f) - 8 < unat (u64_of_bytes h (take 8 (unread f))))"

text \<open>The stream holds \<open>k\<close> tag blocks that decode, then a truncated one.\<close>

fun truncated_after :: "host \<Rightarrow> nat \<Rightarrow> FILE \<Rightarrow> bool" where
  "truncated_after h 0 f = tag_block_truncated h f"
| "truncated_after h (Suc k) f =
     (case readTadTagList h f [] of
        Inl x \<Rightarrow> False
      | Inr (e, tags, f') \<Rightarrow> e = ErrorNone \<and> truncated_after h k f')"

text \<open>
  The header fields of \<open>a\<close> are ones the reader accepts on host \<open>h\<close>: a type code up
  to 15, counts and sizes within \<^verbatim>\<open>size_t\<close>, and a dimension vector and a data buffer
  the allocator hands out.
\<close>

definition header_fields_ok :: "host \<Rightarrow> ArrayContainer \<Rightarrow> bool" where
  "header_fields_ok h a =
     (componentType a \<le> 15
      \<and> componentCount a \<le> size_max h
      \<and> length (dimensions a) \<le> size_max h
      \<and> list_all (\<lambda>d. d \<le> size_max h) (dimensions a)
      \<and> size_max h < 2 ^ 64
      \<and> 8 * length (dimensions a) \<le> mem_limit h
      \<and> dataSize h a \<le> size_max h
      \<and> dataSize h a \<le> mem_limit h)"

text \<open>
  The bytes \<open>readString\<close> lets pass inside a string: not the NUL, not below 32 as a
  \<^verbatim>\<open>char\<close>, not 127.
\<close>

definition accepted :: "host \<Rightarrow> byte \<Rightarrow> bool" where
  "accepted h c = (\<not> (c = 0 \<or> char_less h c 32 \<or> c = 127))"

text \<open>Every key and every value of a tag list consists of such bytes.\<close>

definition tags_accepted :: "host \<Rightarrow> TagList \<Rightarrow> bool" where
  "tags_accepted h tags =
     list_all (\<lambda>(k, v). list_all (accepted h) k \<and> list_all (accepted h) v) tags"

text \<open>
  What the JPEG codec can encode, in the words of the claim: "two-dimensional with
  both dimensions in [1, 2^31-1], of uint8 component type, and with exactly 1 or 3
  components".
\<close>

definition jpeg_encodable :: "nat \<Rightarrow> ArrayContainer \<Rightarrow> bool" where
  "jpeg_encodable uint8 a =
     (length (dimensions a) = 2
      \<and> list_all (\<lambda>d. 1 \<le> d \<and> d \<le> 2 ^ 31 - 1) (dimensions a)
      \<and> componentType a = uint8
      \<and> (componentCount a = 1 \<or> componentCount a = 3))"

subsection \<open>Streams and hosts used in the examples\<close>

text \<open>What \<^verbatim>\<open>fopen(name, "wb")\<close> returns: an empty stream with room for \<open>space\<close> bytes.\<close>

definition fopen_wb :: "nat \<Rightarrow> FILE" where
  "fopen_wb space = \<lparr>f_content = [], f_pos = 0, f_seekable = True, f_space = space\<rparr>"

text \<open>
  What \<^verbatim>\<open>fopen(name, "rb")\<close> returns on a regular file (\<open>seekable\<close>) or a pipe (not)
  that holds \<open>bs\<close>.
\<close>

definition fopen_rb :: "bytes \<Rightarrow> bool \<Rightarrow> FILE" where
  "fopen_rb bs seekable = \<lparr>f_content = bs, f_pos = 0, f_seekable = seekable, f_space = 0\<rparr>"

text \<open>A stream object right after a successful open.\<close>

definition opened :: "FILE \<Rightarrow> TAD" where
  "opened f = \<lparr>tad_f = Some f, tad_arrayCount = -2, tad_arrayOffsets = []\<rparr>"

text \<open>
  A little-endian host with signed \<^verbatim>\<open>char\<close> and 64-bit \<^verbatim>\<open>size_t\<close>, 4 GiB for one
  allocation, one byte per component.
\<close>

definition example_host :: host where
  "example_host =
     \<lparr>big_endian = False, char_signed = True, size_max = 2 ^ 64 - 1, mem_limit = 2 ^ 32,
      componentSize = (\<lambda>t. 1)\<rparr>"

text \<open>
  One cell, one component, the data byte \<open>*\<close>; the tags \<open>k = v\<close> on the array,
  \<open>a = b\<close> on the component, \<open>c = d\<close> on the dimension.
\<close>

definition example_array :: ArrayContainer where
  "example_array =
     \<lparr>dimensions = [1], componentCount = 1, componentType = 1,
      globalTagList = [([0x6B], [0x76])],
      componentTagList = [[([0x61], [0x62])]],
      dimensionTagList = [[([0x63], [0x64])]],
      data = [0x2A]\<rparr>"

text \<open>The 66 bytes of the record of \<open>example_array\<close>.\<close>

definition example_record :: bytes where
  "example_record =
     [0x54, 0x41, 0x44, 0, 1,  1, 0, 0, 0, 0, 0, 0, 0,  1, 0, 0, 0, 0, 0, 0, 0,
      1, 0, 0, 0, 0, 0, 0, 0,
      4, 0, 0, 0, 0, 0, 0, 0,  0x6B, 0, 0x76, 0,
      4, 0, 0, 0, 0, 0, 0, 0,  0x61, 0, 0x62, 0,
      4, 0, 0, 0, 0, 0, 0, 0,  0x63, 0, 0x64, 0,
      0x2A]"

text \<open>The same array with the single tag \<open>k\<close> of empty value in each of its scopes.\<close>

definition flagged_array :: ArrayContainer where
  "flagged_array =
     \<lparr>dimensions = [1], componentCount = 1, componentType = 1,
      globalTagList = [([0x6B], [])],
      componentTagList = [[([0x6B], [])]],
      dimensionTagList = [[([0x6B], [])]],
      data = [0x2A]\<rparr>"

text \<open>The 63 bytes of the record of \<open>flagged_array\<close>.\<close>

definition flagged_record :: bytes where
  "flagged_record =
     [0x54, 0x41, 0x44, 0, 1,  1, 0, 0, 0, 0, 0, 0, 0,  1, 0, 0, 0, 0, 0, 0, 0,
      1, 0, 0, 0, 0, 0, 0, 0,
      3, 0, 0, 0, 0, 0, 0, 0,  0x6B, 0, 0,
      3, 0, 0, 0, 0, 0, 0, 0,  0x6B, 0, 0,
      3, 0, 0, 0, 0, 0, 0, 0,  0x6B, 0, 0,
      0x2A]"

text \<open>
  The header of \<open>example_array\<close>, then a global tag block that declares five bytes
  where two are left.
\<close>

definition truncated_record :: bytes where
  "truncated_record =
     [0x54, 0x41, 0x44, 0, 1,  1, 0, 0, 0, 0, 0, 0, 0,  1, 0, 0, 0, 0, 0, 0, 0,
      1, 0, 0, 0, 0, 0, 0, 0,
      5, 0, 0, 0, 0, 0, 0, 0,  0x6B, 0]"

text \<open>
  The header of \<open>example_array\<close>, its global tag block, then a component tag block
  that declares five bytes where two are left.
\<close>

definition truncated_component_record :: bytes where
  "truncated_component_record =
     [0x54, 0x41, 0x44, 0, 1,  1, 0, 0, 0, 0, 0, 0, 0,  1, 0, 0, 0, 0, 0, 0, 0,
      1, 0, 0, 0, 0, 0, 0, 0,
      4, 0, 0, 0, 0, 0, 0, 0,  0x6B, 0, 0x76, 0,
      5, 0, 0, 0, 0, 0, 0, 0,  0x61, 0]"

text \<open>The record of \<open>example_array\<close> up to its global tag block, with the magic \<open>TAG\<close>.\<close>

definition bad_magic_record :: bytes where
  "bad_magic_record =
     [0x54, 0x41, 0x47, 0, 1,  1, 0, 0, 0, 0, 0, 0, 0,  1, 0, 0, 0, 0, 0, 0, 0,
      1, 0, 0, 0, 0, 0, 0, 0,
      4, 0, 0, 0, 0, 0, 0, 0,  0x6B, 0, 0x76, 0]"

text \<open>The array of the examples without any tag, and the 54 bytes of its record.\<close>

definition plain_array :: ArrayContainer where
  "plain_array =
     \<lparr>dimensions = [1], componentCount = 1, componentType = 1,
      globalTagList = [], componentTagList = [[]], dimensionTagList = [[]],
      data = [0x2A]\<rparr>"

definition plain_record :: bytes where
  "plain_record =
     [0x54, 0x41, 0x44, 0, 1,  1, 0, 0, 0, 0, 0, 0, 0,  1, 0, 0, 0, 0, 0, 0, 0,
      1, 0, 0, 0, 0, 0, 0, 0,
      0, 0, 0, 0, 0, 0, 0, 0,
      0, 0, 0, 0, 0, 0, 0, 0,
      0, 0, 0, 0, 0, 0, 0, 0,
      0x2A]"

text \<open>
  A grid of three by two cells with two components of one byte each, two tags on the
  array, one on each component, one on the first dimension and none on the second; and
  the 109 bytes of its record.
\<close>

definition grid_array :: ArrayContainer where
  "grid_array =
     \<lparr>dimensions = [3, 2], componentCount = 2, componentType = 1,
      globalTagList = [([0x6B], [0x76]), ([0x6E], [0x31])],
      componentTagList = [[([0x61], [0x62])], [([0x63], [0x64])]],
      dimensionTagList = [[([0x78], [0x30])], []],
      data = [1, 2, 3, 4, 5, 6, 7, 8, 9, 10, 11, 12]\<rparr>"

definition grid_record :: bytes where
  "grid_record =
     [0x54, 0x41, 0x44, 0, 1,  2, 0, 0, 0, 0, 0, 0, 0,  2, 0, 0, 0, 0, 0, 0, 0,
      3, 0, 0, 0, 0, 0, 0, 0,  2, 0, 0, 0, 0, 0, 0, 0,
      8, 0, 0, 0, 0, 0, 0, 0,  0x6B, 0, 0x76, 0, 0x6E, 0, 0x31, 0,
      4, 0, 0, 0, 0, 0, 0, 0,  0x61, 0, 0x62, 0,
      4, 0, 0, 0, 0, 0, 0, 0,  0x63, 0, 0x64, 0,
      4, 0, 0, 0, 0, 0, 0, 0,  0x78, 0, 0x30, 0,
      0, 0, 0, 0, 0, 0, 0, 0,
      1, 2, 3, 4, 5, 6, 7, 8, 9, 10, 11, 12]"

text \<open>
  The same with the second dimension of size 0, so without data; and the 97 bytes
  that its record has before the data.
\<close>

definition hollow_array :: ArrayContainer where
  "hollow_array = grid_array\<lparr>dimensions := [3, 0], data := []\<rparr>"

definition hollow_record :: bytes where
  "hollow_record =
     [0x54, 0x41, 0x44, 0, 1,  2, 0, 0, 0, 0, 0, 0, 0,  2, 0, 0, 0, 0, 0, 0, 0,
      3, 0, 0, 0, 0, 0, 0, 0,  0, 0, 0, 0, 0, 0, 0, 0,
      8, 0, 0, 0, 0, 0, 0, 0,  0x6B, 0, 0x76, 0, 0x6E, 0, 0x31, 0,
      4, 0, 0, 0, 0, 0, 0, 0,  0x61, 0, 0x62, 0,
      4, 0, 0, 0, 0, 0, 0, 0,  0x63, 0, 0x64, 0,
      4, 0, 0, 0, 0, 0, 0, 0,  0x78, 0, 0x30, 0,
      0, 0, 0, 0, 0, 0, 0, 0]"

section \<open>Evaluation\<close>

lemma le_bytes_8:
  "le_bytes 8 v =
     [of_nat (v mod 256), of_nat (v div 256 mod 256), of_nat (v div 256 div 256 mod 256),
      of_nat (v div 256 div 256 div 256 mod 256),
      of_nat (v div 256 div 256 div 256 div 256 mod 256),
      of_nat (v div 256 div 256 div 256 div 256 div 256 mod 256),
      of_nat (v div 256 div 256 div 256 div 256 div 256 div 256 mod 256),
      of_nat (v div 256 div 256 div 256 div 256 div 256 div 256 div 256 mod 256)]"
proof -
  have e: "(8::nat) = Suc (Suc (Suc (Suc (Suc (Suc (Suc (Suc 0)))))))" by simp
  show ?thesis by (subst e) simp
qed

lemmas example_defs =
  example_host_def example_array_def flagged_array_def example_record_def flagged_record_def
  fopen_wb_def fopen_rb_def opened_def

lemmas write_eval =
  writeArray_def writeTad_def writeTadTagList_def fwrite_def
  u64_bytes_def tad_start_def dimensionCount_def dataSize_def le_bytes_8

lemmas tag_eval =
  readTadTagList_def fread_def u64_of_bytes_def differs_def readString_def char_less_def

lemmas read_eval =
  tag_eval readTadHeader_def read_dimensions_def ArrayContainer_new_def readTadData_def
  dataSize_def readArray_def readArray_record_def ArrayContainer_default_def

lemmas count_eval =
  arrayCount_def arrayCount_scan.simps FILE_hasMore_def ftello_def rewind_def fseeko_def
  skipTadData_def to_off_t_def OFF_MAX_def INT_MAX_def to_int_def

lemma example_array_written:
  "writeArray example_host (opened (fopen_wb 1000)) example_array =
     Inr (ErrorNone,
          opened \<lparr>f_content = example_record, f_pos = 66, f_seekable = True, f_space = 934\<rparr>)"
  by (simp add: example_defs write_eval)

lemma flagged_array_written:
  "writeArray example_host (opened (fopen_wb 1000)) flagged_array =
     Inr (ErrorNone,
          opened \<lparr>f_content = flagged_record, f_pos = 63, f_seekable = True, f_space = 937\<rparr>)"
  by (simp add: example_defs write_eval)

section \<open>Byte order\<close>

lemma le_bytes_map:
  "le_bytes n v = map (\<lambda>k. of_nat (v div 256 ^ k mod 256)) [0..<n]"
proof (induction n arbitrary: v)
  case 0
  show ?case by simp
next
  case (Suc n)
  have "map (\<lambda>k. (of_nat (v div 256 ^ k mod 256) :: byte)) [0..<Suc n] =
        of_nat (v mod 256) # map (\<lambda>k. of_nat (v div 256 ^ Suc k mod 256)) [0..<n]"
    by (simp only: map_upt_Suc) simp
  moreover have "\<And>k. v div 256 div 256 ^ k = v div 256 ^ Suc k"
    by (simp add: div_mult2_eq)
  ultimately show ?case
    using Suc.IH [of "v div 256"] by simp
qed

lemma byte_of_word:
  "(of_nat (unat (w :: 64 word) div 256 ^ k mod 256) :: byte) = ucast (drop_bit (8 * k) w)"
proof -
  have p: "(256::nat) ^ k = 2 ^ (8 * k)"
    by (simp add: power_mult)
  have "unat (drop_bit (8 * k) w) = unat w div 2 ^ (8 * k)"
    unfolding unat_drop_bit_eq by (simp add: drop_bit_eq_div)
  moreover have "(ucast (drop_bit (8 * k) w) :: byte) = of_nat (unat (drop_bit (8 * k) w))"
    by simp
  moreover have "(of_nat (x mod 256) :: byte) = of_nat x" for x :: nat
    by (simp add: word_of_nat_eq_iff take_bit_eq_mod)
  ultimately show ?thesis
    using p by simp
qed

lemma upt_8: "[0..<8] = [0, 1, 2, 3, 4, 5, 6, 7::nat]"
  by (simp add: upt_conv_Cons)

lemma u64_bytes_native: "u64_bytes h w = native_u64 h w"
  by (simp add: u64_bytes_def native_u64_def le_bytes_map byte_of_word rev_map upt_8 del: upt_Suc)

lemma length_u64_bytes: "length (u64_bytes h w) = 8"
  by (simp add: u64_bytes_def le_bytes_map)


section \<open>What a write hands to the stream\<close>

lemma fwrite_one:
  assumes "fwrite buf sz 1 f = (1, f')"
  shows "f_content f' = f_content f @ take sz buf" and "sz \<le> length buf" and "0 < sz"
proof -
  from assms have z: "sz \<noteq> 0"
    by (auto simp: fwrite_def split: if_splits)
  define out where "out = take (min sz (f_space f)) buf"
  from assms z have d: "length out div sz = 1"
    and c: "f_content f' = f_content f @ out"
    by (auto simp: fwrite_def out_def Let_def)
  have "length out \<le> sz"
    by (simp add: out_def)
  moreover from d z have "sz \<le> length out"
    by (metis div_less not_le zero_neq_one)
  ultimately have l: "length out = sz"
    by simp
  then have "sz \<le> f_space f" and "sz \<le> length buf"
    by (auto simp: out_def min_def split: if_splits)
  then have "out = take sz buf"
    by (simp add: out_def min_def)
  with c show "f_content f' = f_content f @ take sz buf"
    by simp
  show "sz \<le> length buf" by fact
  from z show "0 < sz" by simp
qed

lemma fold_tag_payload:
  "fold (\<lambda>(k, v) d. d @ (k @ [0]) @ (v @ [0])) tags d0 = d0 @ tag_payload tags"
  by (induction tags arbitrary: d0) (auto simp: tag_payload_def)

lemma writeTadTagList_content:
  assumes "writeTadTagList h f tags = (True, f')"
  shows "f_content f' = f_content f @ tag_block h tags"
proof -
  let ?d = "native_u64 h (of_nat (length (tag_payload tags))) @ tag_payload tags"
  from assms [unfolded writeTadTagList_def fold_tag_payload u64_bytes_native]
  have "fwrite ?d (length ?d) 1 f = (1, f')"
    by (auto simp: Let_def split: prod.splits)
  from fwrite_one(1) [OF this] show ?thesis
    by (simp add: tag_block_def)
qed

lemma writeTagLists_content:
  "writeTagLists h f tls = (True, f') \<Longrightarrow>
     f_content f' = f_content f @ concat (map (tag_block h) tls)"
proof (induction tls arbitrary: f)
  case Nil
  then show ?case by simp
next
  case (Cons tags rest)
  obtain ok f1 where w: "writeTadTagList h f tags = (ok, f1)"
    by (cases "writeTadTagList h f tags")
  with Cons.prems have ok: "ok" and r: "writeTagLists h f1 rest = (True, f')"
    by (auto split: if_splits)
  from w ok have "f_content f1 = f_content f @ tag_block h tags"
    by (simp add: writeTadTagList_content)
  with Cons.IH [OF r] show ?case
    by simp
qed

lemma map_index: "map (\<lambda>d. g (xs ! d)) [0..<length xs] = map g xs"
proof -
  have "map g xs = map g (map ((!) xs) [0..<length xs])"
    by (simp only: map_nth)
  also have "\<dots> = map (\<lambda>d. g (xs ! d)) [0..<length xs]"
    by (simp only: map_map o_def)
  finally show ?thesis by simp
qed

lemma tad_start_header: "tad_start h a = record_header h a"
  using map_index [of "\<lambda>d. native_u64 h (of_nat d)" "dimensions a"]
  by (simp add: tad_start_def record_header_def u64_bytes_native dimensionCount_def)

lemma length_native_u64: "length (native_u64 h w) = 8"
  by (simp add: native_u64_def)

lemma writeTad_content:
  assumes "writeTad h f a = (True, f')"
    and "length (componentTagList a) = componentCount a"
    and "length (dimensionTagList a) = dimensionCount a"
    and "length (data a) = dataSize h a"
  shows "f_content f' = f_content f @ record_layout h a"
proof -
  obtain r1 f1 where s1: "fwrite (tad_start h a) (length (tad_start h a)) 1 f = (r1, f1)"
    by (cases "fwrite (tad_start h a) (length (tad_start h a)) 1 f")
  obtain ok1 f2 where s2: "writeTadTagList h f1 (globalTagList a) = (ok1, f2)"
    by (cases "writeTadTagList h f1 (globalTagList a)")
  obtain ok2 f3 where s3: "writeTagLists h f2 (componentTagList a) = (ok2, f3)"
    by (cases "writeTagLists h f2 (componentTagList a)")
  obtain ok3 f4 where s4: "writeTagLists h f3 (dimensionTagList a) = (ok3, f4)"
    by (cases "writeTagLists h f3 (dimensionTagList a)")
  obtain r5 f5 where s5: "fwrite (data a) (dataSize h a) 1 f4 = (r5, f5)"
    by (cases "fwrite (data a) (dataSize h a) 1 f4")
  have c: "map (\<lambda>c. componentTagList a ! c) [0..<componentCount a] = componentTagList a"
    using assms(2) map_nth [of "componentTagList a"] by simp
  have d: "map (\<lambda>d. dimensionTagList a ! d) [0..<dimensionCount a] = dimensionTagList a"
    using assms(3) map_nth [of "dimensionTagList a"] by simp
  from assms(1) s1 s2 s3 s4 s5 have ok: "r1 = 1" "ok1" "ok2" "ok3" "r5 = 1" and e: "f' = f5"
    by (auto simp: writeTad_def c d split: if_splits)
  from s1 ok(1) have "f_content f1 = f_content f @ record_header h a"
    using fwrite_one(1) [of "tad_start h a" "length (tad_start h a)" f f1]
    by (simp add: tad_start_header)
  moreover from s2 ok(2) have "f_content f2 = f_content f1 @ tag_block h (globalTagList a)"
    by (simp add: writeTadTagList_content)
  moreover from s3 ok(3)
  have "f_content f3 = f_content f2 @ concat (map (tag_block h) (componentTagList a))"
    by (simp add: writeTagLists_content)
  moreover from s4 ok(4)
  have "f_content f4 = f_content f3 @ concat (map (tag_block h) (dimensionTagList a))"
    by (simp add: writeTagLists_content)
  moreover from s5 ok(5) assms(4) have "f_content f5 = f_content f4 @ data a"
    using fwrite_one(1) [of "data a" "dataSize h a" f4 f5] by simp
  ultimately show ?thesis
    using e by (simp add: record_layout_def)
qed

lemma stream_after_append:
  "stream_after (stream_after f bs) cs = stream_after f (bs @ cs)"
  by (simp add: stream_after_def)

lemma fwrite_fits:
  assumes "0 < length bs" and "length bs \<le> f_space f"
  shows "fwrite bs (length bs) 1 f = (1, stream_after f bs)"
  using assms by (auto simp: fwrite_def stream_after_def min_def)

lemma writeTadTagList_fits:
  assumes "length (tag_block h tags) \<le> f_space f"
  shows "writeTadTagList h f tags = (True, stream_after f (tag_block h tags))"
proof -
  let ?d = "native_u64 h (of_nat (length (tag_payload tags))) @ tag_payload tags"
  have d: "tag_block h tags = ?d"
    by (simp add: tag_block_def)
  have "0 < length ?d"
    by (simp add: length_native_u64)
  from fwrite_fits [OF this] assms have "fwrite ?d (length ?d) 1 f = (1, stream_after f ?d)"
    by (simp add: d)
  then show ?thesis
    unfolding writeTadTagList_def fold_tag_payload u64_bytes_native d
    by (simp add: Let_def)
qed

lemma f_space_stream_after: "f_space (stream_after f bs) = f_space f - length bs"
  by (simp add: stream_after_def)

lemma writeTagLists_fits:
  "length (concat (map (tag_block h) tls)) \<le> f_space f \<Longrightarrow>
     writeTagLists h f tls = (True, stream_after f (concat (map (tag_block h) tls)))"
proof (induction tls arbitrary: f)
  case Nil
  then show ?case by (simp add: stream_after_def)
next
  case (Cons tags rest)
  from Cons.prems have a: "length (tag_block h tags) \<le> f_space f"
    and b: "length (concat (map (tag_block h) rest)) \<le> f_space (stream_after f (tag_block h tags))"
    by (simp_all add: f_space_stream_after)
  from writeTadTagList_fits [OF a] Cons.IH [OF b] show ?case
    by (simp add: stream_after_append)
qed

lemma writeTad_fits:
  assumes c: "length (componentTagList a) = componentCount a"
    and d: "length (dimensionTagList a) = dimensionCount a"
    and l: "length (data a) = dataSize h a"
    and s: "length (record_layout h a) \<le> f_space f"
  shows "writeTad h f a = (0 < dataSize h a, stream_after f (record_layout h a))"
proof -
  let ?H = "record_header h a" and ?G = "tag_block h (globalTagList a)"
  let ?C = "concat (map (tag_block h) (componentTagList a))"
  let ?D = "concat (map (tag_block h) (dimensionTagList a))"
  let ?f1 = "stream_after f ?H"
  let ?f2 = "stream_after f (?H @ ?G)"
  let ?f3 = "stream_after f (?H @ ?G @ ?C)"
  let ?f4 = "stream_after f (?H @ ?G @ ?C @ ?D)"
  have mc: "map (\<lambda>c. componentTagList a ! c) [0..<componentCount a] = componentTagList a"
    using c map_nth [of "componentTagList a"] by simp
  have md: "map (\<lambda>d. dimensionTagList a ! d) [0..<dimensionCount a] = dimensionTagList a"
    using d map_nth [of "dimensionTagList a"] by simp
  from s have sp: "length ?H + length ?G + length ?C + length ?D + length (data a) \<le> f_space f"
    by (simp add: record_layout_def)
  have "0 < length ?H"
    by (simp add: record_header_def)
  from fwrite_fits [OF this] sp
  have w1: "fwrite (tad_start h a) (length (tad_start h a)) 1 f = (1, ?f1)"
    by (simp add: tad_start_header)
  have w2: "writeTadTagList h ?f1 (globalTagList a) = (True, ?f2)"
    using writeTadTagList_fits [of h "globalTagList a" ?f1] sp
    by (simp add: f_space_stream_after stream_after_append)
  have w3: "writeTagLists h ?f2 (componentTagList a) = (True, ?f3)"
    using writeTagLists_fits [of h "componentTagList a" ?f2] sp
    by (simp add: f_space_stream_after stream_after_append)
  have w4: "writeTagLists h ?f3 (dimensionTagList a) = (True, ?f4)"
    using writeTagLists_fits [of h "dimensionTagList a" ?f3] sp
    by (simp add: f_space_stream_after stream_after_append)
  have w5: "(case fwrite (data a) (dataSize h a) 1 ?f4 of (r5, f5) \<Rightarrow> (r5 = 1, f5)) =
      (0 < dataSize h a, stream_after f (record_layout h a))"
  proof (cases "0 < dataSize h a")
    case True
    with l have "0 < length (data a)" by simp
    from fwrite_fits [OF this, of ?f4] sp l True show ?thesis
      by (simp add: f_space_stream_after stream_after_append record_layout_def)
  next
    case False
    with l have "data a = []" by simp
    with False show ?thesis
      by (simp add: fwrite_def record_layout_def)
  qed
  show ?thesis
    by (simp only: writeTad_def mc md w1 w2 w3 w4 w5 prod.case if_True simp_thms)
qed

lemmas layout_eval =
  record_layout_def record_header_def tag_block_def tag_payload_def
  u64_bytes_native [symmetric] u64_bytes_def le_bytes_8

section \<open>Decoding what was encoded; reading at the stream position\<close>

lemma le_val_le_bytes: "le_val (le_bytes n v) = v mod 256 ^ n"
proof (induction n arbitrary: v)
  case 0
  show ?case by simp
next
  case (Suc n)
  have "unat (of_nat (v mod 256) :: byte) = v mod 256"
    by (simp add: unat_of_nat)
  then have "le_val (le_bytes (Suc n) v) = v mod 256 + 256 * (v div 256 mod 256 ^ n)"
    by (simp add: Suc.IH)
  also have "\<dots> = v mod 256 ^ Suc n"
    by (simp add: mod_mult2_eq)
  finally show ?case .
qed

lemma u64_of_bytes_u64_bytes: "u64_of_bytes h (u64_bytes h w) = w"
proof -
  have "unat w < 2 ^ 64"
    using unsigned_less [of w, where 'a = nat] by simp
  then have "unat w mod 256 ^ 8 = unat w"
    by simp
  then show ?thesis
    by (simp add: u64_of_bytes_def u64_bytes_def le_val_le_bytes)
qed

lemma fread_exact:
  assumes "unread f = xs @ rest" and "length xs = sz * nmemb" and "0 < sz" and "0 < nmemb"
  shows "fread sz nmemb f = (xs, nmemb, f\<lparr>f_pos := f_pos f + length xs\<rparr>)"
  using assms by (simp add: fread_def unread_def)

lemma unread_advance:
  assumes "unread f = xs @ rest"
  shows "unread (f\<lparr>f_pos := f_pos f + length xs\<rparr>) = rest"
proof -
  have "drop (f_pos f + length xs) (f_content f) = drop (length xs) (drop (f_pos f) (f_content f))"
    by (simp add: add.commute)
  with assms show ?thesis
    by (simp add: unread_def)
qed

lemma fread_short:
  assumes "length (unread f) < sz"
  shows "\<exists>got f'. fread sz 1 f = (got, 0, f')"
  using assms by (simp add: fread_def unread_def Let_def)

lemma fread_take:
  assumes "sz * nmemb \<le> length (unread f)" and "0 < sz" and "0 < nmemb"
  shows "fread sz nmemb f = (take (sz * nmemb) (unread f), nmemb, f\<lparr>f_pos := f_pos f + sz * nmemb\<rparr>)"
  using assms fread_exact [of f "take (sz * nmemb) (unread f)" "drop (sz * nmemb) (unread f)" sz nmemb]
  by simp

lemma unread_skip: "unread (f\<lparr>f_pos := f_pos f + n\<rparr>) = drop n (unread f)"
  by (simp add: unread_def add.commute)

lemma take_3_eq:
  assumes "3 \<le> length u"
  shows "take 3 u = [a, b, c] \<longleftrightarrow> u ! 0 = a \<and> u ! 1 = b \<and> u ! 2 = c"
proof -
  from assms obtain x y z r where "u = x # y # z # r"
    by (metis One_nat_def Suc_le_length_iff numeral_3_eq_3)
  then show ?thesis by auto
qed

lemma readTadHeader_corrupt_preamble:
  assumes "21 \<le> length (unread f)" and "preamble_corrupt (unread f)"
  shows "readTadHeader h f array = Inr (ErrorInvalidData, array, f\<lparr>f_pos := f_pos f + 21\<rparr>)"
proof -
  let ?s = "take 21 (unread f)"
  have r: "fread 21 1 f = (?s, 1, f\<lparr>f_pos := f_pos f + 21\<rparr>)"
    using fread_take [of 21 1 f] assms(1) by simp
  have n: "?s ! 0 = unread f ! 0" "?s ! 1 = unread f ! 1" "?s ! 2 = unread f ! 2"
    "?s ! 3 = unread f ! 3" "?s ! 4 = unread f ! 4"
    by simp_all
  from assms have "differs (?s ! 0) 0x54 \<or> differs (?s ! 1) 0x41 \<or> differs (?s ! 2) 0x44
      \<or> differs (?s ! 3) 0 \<or> 15 < ?s ! 4"
    unfolding n preamble_corrupt_def differs_def
    using take_3_eq [of "unread f" "0x54" "0x41" "0x44"]
    by (auto simp: word_less_nat_alt word_le_nat_alt)
  then have c: "differs (?s ! 0) 0x54 \<or> differs (?s ! 1) 0x41 \<or> differs (?s ! 2) 0x44
      \<or> differs (?s ! 3) 0 \<or> 15 < ?s ! 4
      \<or> size_max h < unat (u64_of_bytes h (take 8 (drop 5 ?s)))
      \<or> size_max h < unat (u64_of_bytes h (take 8 (drop 13 ?s)))"
    by blast
  show ?thesis
    by (simp only: readTadHeader_def r prod.case c if_True simp_thms)
qed

lemma tag_block_truncated_error:
  assumes "tag_block_truncated h f"
  shows "\<exists>f'. readTadTagList h f tags = Inr (ErrorSysErrno, tags, f')"
proof -
  let ?n = "unat (u64_of_bytes h (take 8 (unread f)))"
  let ?f1 = "f\<lparr>f_pos := f_pos f + 8\<rparr>"
  from assms have a: "8 \<le> length (unread f)" "?n \<le> size_max h" "?n \<le> mem_limit h"
    "length (unread f) - 8 < ?n"
    by (simp_all add: tag_block_truncated_def)
  have r: "fread 8 1 f = (take 8 (unread f), 1, ?f1)"
    using fread_take [of 8 1 f] a(1) by simp
  have "length (unread ?f1) < ?n"
    using a(4) by (simp add: unread_skip)
  from fread_short [OF this] obtain got f2 where "fread ?n 1 ?f1 = (got, 0, f2)"
    by blast
  with a(2,3) show ?thesis
    unfolding readTadTagList_def r by simp
qed

lemma unrepresentable_tag_length_is_invalid_data:
  assumes "8 \<le> length (unread f)"
    and "size_max h < unat (u64_of_bytes h (take 8 (unread f)))"
  shows "readTadTagList h f tags = Inr (ErrorInvalidData, tags, f\<lparr>f_pos := f_pos f + 8\<rparr>)"
proof -
  have r: "fread 8 1 f = (take 8 (unread f), 1, f\<lparr>f_pos := f_pos f + 8\<rparr>)"
    using fread_take [of 8 1 f] assms(1) by simp
  from assms(2) show ?thesis
    unfolding readTadTagList_def r by simp
qed

lemma readTagLists_truncated:
  "k < m \<Longrightarrow> truncated_after h k f \<Longrightarrow>
     \<exists>tls f'. readTagLists h f (replicate m []) = Inr (ErrorSysErrno, tls, f')"
proof (induction m arbitrary: k f)
  case 0
  then show ?case by simp
next
  case (Suc m)
  show ?case
  proof (cases k)
    case 0
    with Suc.prems have "tag_block_truncated h f" by simp
    from tag_block_truncated_error [OF this, of "[]"] show ?thesis
      by auto
  next
    case (Suc j)
    with Suc.prems(2) obtain tags f1 where
      r: "readTadTagList h f [] = Inr (ErrorNone, tags, f1)" and t: "truncated_after h j f1"
      by (auto split: sum.splits)
    from Suc.prems(1) \<open>k = Suc j\<close> have "j < m" by simp
    from Suc.IH [OF this t] r show ?thesis
      by auto
  qed
qed

lemma readTagLists_passed:
  "m \<le> k \<Longrightarrow> truncated_after h k f \<Longrightarrow>
     \<exists>tls f'. readTagLists h f (replicate m []) = Inr (ErrorNone, tls, f')
        \<and> truncated_after h (k - m) f'"
proof (induction m arbitrary: k f)
  case 0
  then show ?case by simp
next
  case (Suc m)
  then obtain j where k: "k = Suc j" and "m \<le> j"
    by (cases k) auto
  with Suc.prems(2) obtain tags f1 where
    r: "readTadTagList h f [] = Inr (ErrorNone, tags, f1)" and t: "truncated_after h j f1"
    by (auto split: sum.splits)
  from Suc.IH [OF \<open>m \<le> j\<close> t] r k show ?case
    by auto
qed

lemma chunk_of_concat:
  "list_all (\<lambda>x. length x = n) xss \<Longrightarrow> d < length xss \<Longrightarrow>
     take n (drop (n * d) (concat xss)) = xss ! d"
proof (induction xss arbitrary: d)
  case Nil
  then show ?case by simp
next
  case (Cons x xss)
  show ?case
  proof (cases d)
    case 0
    with Cons.prems show ?thesis by simp
  next
    case (Suc e)
    with Cons.prems have "take n (drop (n * e) (concat xss)) = xss ! e"
      using Cons.IH [of e] by simp
    with Suc Cons.prems(1) show ?thesis
      by (simp add: add.commute)
  qed
qed

lemma unat_u64_of_nat:
  assumes "n < 2 ^ 64"
  shows "unat (u64_of_bytes h (native_u64 h (of_nat n))) = n"
proof -
  have "unat (of_nat n :: 64 word) = n"
    using assms by (simp add: unat_of_nat)
  then show ?thesis
    using u64_of_bytes_u64_bytes [of h "of_nat n"] by (simp add: u64_bytes_native)
qed

lemma read_dimensions_encoded:
  assumes "list_all (\<lambda>d. d \<le> size_max h) dims" and "size_max h < 2 ^ 64"
  shows "read_dimensions h (length dims) (concat (map (\<lambda>d. native_u64 h (of_nat d)) dims)) = dims"
proof (rule nth_equalityI)
  show "length (read_dimensions h (length dims) (concat (map (\<lambda>d. native_u64 h (of_nat d)) dims)))
        = length dims"
    by (simp add: read_dimensions_def)
next
  fix i
  assume "i < length (read_dimensions h (length dims)
                        (concat (map (\<lambda>d. native_u64 h (of_nat d)) dims)))"
  then have i: "i < length dims"
    by (simp add: read_dimensions_def)
  let ?xss = "map (\<lambda>d. native_u64 h (of_nat d)) dims"
  have "list_all (\<lambda>x. length x = 8) ?xss"
    by (simp add: list_all_iff length_native_u64)
  from chunk_of_concat [OF this, of i] i
  have c: "take 8 (drop (8 * i) (concat ?xss)) = native_u64 h (of_nat (dims ! i))"
    by simp
  from assms i have b: "dims ! i \<le> size_max h"
    by (simp add: list_all_length)
  with assms(2) have "dims ! i < 2 ^ 64" by simp
  then have "unat (u64_of_bytes h (native_u64 h (of_nat (dims ! i)))) = dims ! i"
    by (rule unat_u64_of_nat)
  with b c i show "read_dimensions h (length dims) (concat ?xss) ! i = dims ! i"
    by (simp add: read_dimensions_def)
qed

lemma readTadHeader_truncated_tag_block:
  assumes ok: "header_fields_ok h a"
    and u: "unread f = record_header h a @ rest"
    and k: "k \<le> componentCount a + length (dimensions a)"
    and t: "truncated_after h k (f\<lparr>f_pos := f_pos f + length (record_header h a)\<rparr>)"
  shows "\<exists>a' f'. readTadHeader h f array = Inr (ErrorSysErrno, a', f')"
proof -
  let ?cc = "componentCount a" and ?dims = "dimensions a" and ?ty = "componentType a"
  let ?dc = "length ?dims"
  define P where "P = [0x54, 0x41, 0x44, 0, of_nat ?ty] @ native_u64 h (of_nat ?cc)
                       @ native_u64 h (of_nat ?dc)"
  define D where "D = concat (map (\<lambda>d. native_u64 h (of_nat d)) ?dims)"
  define f1 where "f1 = f\<lparr>f_pos := f_pos f + 21\<rparr>"
  define f2 where "f2 = f\<lparr>f_pos := f_pos f + length (record_header h a)\<rparr>"
  from ok have lim: "?ty \<le> 15" "?cc \<le> size_max h" "?dc \<le> size_max h"
      "list_all (\<lambda>d. d \<le> size_max h) ?dims" "size_max h < 2 ^ 64"
      "8 * ?dc \<le> mem_limit h" "dataSize h a \<le> size_max h" "dataSize h a \<le> mem_limit h"
    by (simp_all add: header_fields_ok_def)
  have hd: "record_header h a = P @ D"
    by (simp add: record_header_def P_def D_def)
  have lP: "length P = 21"
    by (simp add: P_def length_native_u64)
  have lD: "length D = 8 * ?dc"
    by (simp add: D_def length_concat comp_def length_native_u64 sum_list_triv)
  have P0: "P ! 0 = 0x54" "P ! Suc 0 = 0x41" "P ! 2 = 0x44" "P ! 3 = 0" "P ! 4 = of_nat ?ty"
    by (simp_all add: P_def)
  have Pcc: "take 8 (drop 5 P) = native_u64 h (of_nat ?cc)"
    and Pdc: "take 8 (drop 13 P) = native_u64 h (of_nat ?dc)"
    by (simp_all add: P_def length_native_u64)
  have ucc: "unat (u64_of_bytes h (native_u64 h (of_nat ?cc))) = ?cc"
    and udc: "unat (u64_of_bytes h (native_u64 h (of_nat ?dc))) = ?dc"
    using lim by (simp_all add: unat_u64_of_nat)
  have uty: "unat (of_nat ?ty :: byte) = ?ty"
    using lim(1) by (simp add: unat_of_nat)
  then have ty15: "\<not> 15 < (of_nat ?ty :: byte)"
    using lim(1) by (simp add: word_less_nat_alt)
  have r1: "fread 21 1 f = (P, 1, f1)"
    using fread_exact [of f P "D @ rest" 21 1] u hd lP by (simp add: f1_def)
  have u1: "unread f1 = D @ rest"
    using unread_advance [of f P "D @ rest"] u hd lP by (simp add: f1_def)
  have f12: "f1\<lparr>f_pos := f_pos f1 + length D\<rparr> = f2"
    by (simp add: f1_def f2_def hd lP)
  have r2: "fread 8 ?dc f1 = (D, ?dc, f2)"
  proof (cases "?dc = 0")
    case True
    then have "D = []" by (simp add: D_def)
    with True f12 show ?thesis by (simp add: fread_def)
  next
    case False
    with fread_exact [of f1 D rest 8 ?dc] u1 lD f12 show ?thesis by simp
  qed
  have rd: "read_dimensions h ?dc D = ?dims"
    unfolding D_def using lim(4,5) by (rule read_dimensions_encoded)
  define a0 where "a0 = \<lparr>dimensions = ?dims, componentCount = ?cc, componentType = ?ty,
      globalTagList = [], componentTagList = replicate ?cc [],
      dimensionTagList = replicate ?dc [],
      data = replicate (componentSize h ?ty * ?cc * prod_list ?dims) 0\<rparr>"
  have new: "ArrayContainer_new h ?dims ?cc ?ty = Inr a0"
    using lim(7,8) by (simp add: ArrayContainer_new_def dataSize_def a0_def)
  have a0s: "globalTagList a0 = []" "componentTagList a0 = replicate ?cc []"
    "dimensionTagList a0 = replicate ?dc []"
    by (simp_all add: a0_def)
  have tags: "\<exists>a' f'.
      (case readTadTagList h f2 [] of
         Inl x \<Rightarrow> Inl x
       | Inr (e1, g, f3) \<Rightarrow>
           if e1 = ErrorNone then
             (case readTagLists h f3 (componentTagList a0) of
                Inl x \<Rightarrow> Inl x
              | Inr (e2, cs, f4) \<Rightarrow>
                  if e2 = ErrorNone then
                    (case readTagLists h f4 (dimensionTagList a0) of
                       Inl x \<Rightarrow> Inl x
                     | Inr (e3, ds, f5) \<Rightarrow>
                         Inr (e3, a0\<lparr>globalTagList := g, componentTagList := cs,
                                     dimensionTagList := ds\<rparr>, f5))
                  else Inr (e2, a0\<lparr>globalTagList := g, componentTagList := cs\<rparr>, f4))
           else Inr (e1, a0\<lparr>globalTagList := g\<rparr>, f3)) = Inr (ErrorSysErrno, a', f')"
  proof (cases k)
    case 0
    with t have "tag_block_truncated h f2" by (simp add: f2_def)
    from tag_block_truncated_error [OF this, of "[]"] show ?thesis
      by auto
  next
    case (Suc j)
    with t obtain g f3 where
      g: "readTadTagList h f2 [] = Inr (ErrorNone, g, f3)" and t3: "truncated_after h j f3"
      by (auto simp: f2_def split: sum.splits)
    show ?thesis
    proof (cases "j < ?cc")
      case True
      from readTagLists_truncated [OF True t3] g show ?thesis
        by (auto simp: a0s)
    next
      case False
      then have "?cc \<le> j" by simp
      from readTagLists_passed [OF this t3] obtain cs f4 where
        c: "readTagLists h f3 (replicate ?cc []) = Inr (ErrorNone, cs, f4)"
        and t4: "truncated_after h (j - ?cc) f4"
        by blast
      from k Suc False have "j - ?cc < ?dc" by simp
      from readTagLists_truncated [OF this t4] g c show ?thesis
        by (auto simp: a0s)
    qed
  qed
  show ?thesis
    unfolding readTadHeader_def r1 prod.case
    using tags
    by (simp add: P0 Pcc Pdc ucc udc uty ty15 differs_def lim r2 rd new a0s(1) not_less)
qed

lemma readArray_sequential:
  assumes "tad_f st = Some f" and "arrayIndex < 0"
  shows "readArray h err arrayIndex st =
     Some (case readTadHeader h f ArrayContainer_default of
             Inl x \<Rightarrow> Inl x
           | Inr (e, array, f1) \<Rightarrow>
               if e = ErrorNone then
                 (case readTadData h f1 array of
                    (ok, array', f2) \<Rightarrow>
                      if ok then Inr (array', err, st\<lparr>tad_f := Some f2\<rparr>)
                      else Inr (ArrayContainer_default, ErrorSysErrno, st\<lparr>tad_f := Some f2\<rparr>))
               else Inr (ArrayContainer_default, e, st\<lparr>tad_f := Some f1\<rparr>))"
  using assms by (simp add: readArray_def readArray_record_def)


section \<open>What holds of the count and of indexed reads\<close>

lemma arrayCount_cached:
  "- 1 \<le> tad_arrayCount st \<Longrightarrow> arrayCount h st = Some (Inr (tad_arrayCount st, st))"
  by (simp add: arrayCount_def)

lemma arrayCount_not_seekable:
  assumes "tad_f st = Some f" and "\<not> f_seekable f" and "tad_arrayCount st < - 1"
  shows "arrayCount h st = Some (Inr (- 1, st\<lparr>tad_arrayCount := - 1\<rparr>))"
  using assms by (simp add: arrayCount_def ftello_def)

lemma readArray_not_seekable:
  assumes "tad_f st = Some f" and "\<not> f_seekable f" and "tad_arrayCount st < - 1"
    and "0 \<le> arrayIndex"
  shows "readArray h err arrayIndex st =
     Some (Inr (ArrayContainer_default, ErrorSeekingNotSupported, st\<lparr>tad_arrayCount := - 1\<rparr>))"
  using assms by (simp add: readArray_def arrayCount_not_seekable [OF assms(1-3)])

lemma readArray_index_out_of_range:
  assumes "0 \<le> tad_arrayCount st" and "tad_arrayCount st \<le> arrayIndex"
  shows "readArray h err arrayIndex st =
     Some (Inr (ArrayContainer_default, ErrorInvalidData, st))"
  using assms by (simp add: readArray_def arrayCount_def)

lemma arrayCount_success_restores_position:
  assumes "tad_f st = Some f" and "tad_arrayCount st < - 1"
    and "arrayCount h st = Some (Inr (n, st'))" and "0 \<le> n"
  shows "\<exists>f'. tad_f st' = Some f' \<and> f_pos f' = f_pos f \<and> tad_arrayCount st' = n"
  using assms
  by (auto simp: arrayCount_def fseeko_def ftello_def
           split: option.splits sum.splits prod.splits scan_exit.splits if_splits)

lemma readArray_count_unknown:
  assumes "arrayCount h st = Some (Inr (n, st1))" and "n < 0" and "0 \<le> arrayIndex"
  shows "readArray h err arrayIndex st =
     Some (Inr (ArrayContainer_default, ErrorSeekingNotSupported, st1))"
  using assms by (simp add: readArray_def)

section \<open>What the tag decoder does to a value\<close>

text \<open>
  Whatever the key and the value of a single tag are, as long as \<open>readString\<close> lets
  their bytes pass: the block the writer emits for it decodes to the tag whose value
  lacks its first byte, and that byte is never examined.
\<close>

lemma readString_scan_accepted:
  "list_all (accepted h) s \<Longrightarrow>
     readString_scan h (s @ 0 # r) i = Inr (True, i + length s + 1)"
  by (induction s arbitrary: i) (auto simp: accepted_def)

lemma takeWhile_accepted:
  "list_all (accepted h) s \<Longrightarrow> takeWhile (\<lambda>c. differs c 0) (s @ 0 # r) = s"
  by (induction s) (auto simp: accepted_def differs_def)

lemma readString_accepted:
  "list_all (accepted h) s \<Longrightarrow> readString h (s @ 0 # r) = Inr (Some (s, length s + 1))"
  by (simp add: readString_def readString_scan_accepted takeWhile_accepted)

lemma readTadTagList_loop_done:
  "length d \<le> i \<Longrightarrow> readTadTagList_loop h d i tags = Inr (ErrorNone, tags)"
  by (subst readTadTagList_loop.simps) simp

lemma single_tag_value_loses_first_byte:
  assumes k: "list_all (accepted h) key" and v: "list_all (accepted h) val"
  shows "readTadTagList_loop h (tag_payload [(key, c # val)]) 0 [] = Inr (ErrorNone, [(key, val)])"
proof -
  have d: "tag_payload [(key, c # val)] = key @ 0 # c # val @ [0]"
    by (simp add: tag_payload_def)
  have r1: "readString h (key @ 0 # c # val @ [0]) = Inr (Some (key, length key + 1))"
    by (rule readString_accepted [OF k])
  have r2: "readString h (val @ [0]) = Inr (Some (val, length val + 1))"
    by (rule readString_accepted [OF v])
  show ?thesis
    unfolding d
    by (subst readTadTagList_loop.simps) (simp add: r1 r2 readTadTagList_loop_done)
qed

section \<open>What the tag decoder checks\<close>

text \<open>
  \<open>readString\<close> lets exactly the accepted bytes pass, which on a host with signed
  \<^verbatim>\<open>char\<close> are the bytes from 32 to 126; so every tag list that is decoded
  without an error consists of accepted bytes. The check sees the bytes the decoder
  scans, and those are not all the bytes of the payload.
\<close>

lemma accepted_signed:
  assumes "char_signed h"
  shows "accepted h c = (32 \<le> c \<and> c \<le> 126)"
proof -
  have s: "sint c = (uint c + 128) mod 256 - 128"
    by (simp add: sint_uint signed_take_bit_eq_take_bit_shift take_bit_eq_mod)
  have u: "uint c < 256"
    using uint_bounded [of c] by simp
  have z: "0 \<le> uint c"
    by simp
  have "sint c < 32 \<longleftrightarrow> uint c < 32 \<or> 128 \<le> uint c"
  proof (cases "uint c < 128")
    case True
    with z have "(uint c + 128) mod 256 = uint c + 128" by simp
    with True show ?thesis by (simp add: s)
  next
    case False
    with u have "(uint c + 128) mod 256 = uint c - 128"
      by (simp add: mod_pos_geq)
    with False u show ?thesis by (simp add: s)
  qed
  with assms u z show ?thesis
    by (auto simp: accepted_def char_less_def word_le_def word_less_def word_uint_eq_iff)
qed

lemma readString_scan_true:
  "readString_scan h buf i = Inr (True, n) \<Longrightarrow>
     list_all (accepted h) (takeWhile (\<lambda>c. differs c 0) buf)"
proof (induction buf arbitrary: i)
  case Nil
  then show ?case by simp
next
  case (Cons c cs)
  show ?case
  proof (cases "c = 0")
    case True
    then show ?thesis by (simp add: differs_def)
  next
    case False
    with Cons.prems have a: "accepted h c" and r: "readString_scan h cs (Suc i) = Inr (True, n)"
      by (auto simp: accepted_def split: if_splits)
    from Cons.IH [OF r] a False show ?thesis
      by (simp add: differs_def)
  qed
qed

lemma readString_result_accepted:
  assumes "readString h buf = Inr (Some (s, n))"
  shows "list_all (accepted h) s"
proof -
  from assms obtain i where "readString_scan h buf 0 = Inr (True, i)"
    and "s = takeWhile (\<lambda>c. differs c 0) buf"
    by (auto simp: readString_def split: sum.splits if_splits)
  then show ?thesis
    by (simp add: readString_scan_true)
qed

lemma readString_rejects:
  assumes "list_all (accepted h) s" and "\<not> accepted h c" and "c \<noteq> 0"
  shows "readString h (s @ c # r) = Inr None"
proof -
  have "readString_scan h (s @ c # r) i = Inr (False, i + length s + 1)" for i
    using assms by (induction s arbitrary: i) (auto simp: accepted_def)
  then show ?thesis
    by (simp add: readString_def)
qed

lemma TagList_set_accepted:
  "tags_accepted h tags \<Longrightarrow> list_all (accepted h) k \<Longrightarrow> list_all (accepted h) v \<Longrightarrow>
     tags_accepted h (TagList_set tags k v)"
  by (induction tags) (auto simp: tags_accepted_def)

lemma readTadTagList_loop_step:
  assumes "i < length d"
    and "readTadTagList_loop h d i tags = Inr (ErrorNone, tags')"
  shows "\<exists>key keyLen val valueLen.
      readString h (drop i d) = Inr (Some (key, keyLen))
      \<and> \<not> length d \<le> i + keyLen + 1
      \<and> readString h (drop (i + keyLen + 1) d) = Inr (Some (val, valueLen))
      \<and> readTadTagList_loop h d (i + keyLen + 1 + valueLen + 1) (TagList_set tags key val)
          = Inr (ErrorNone, tags')"
proof -
  note s = readTadTagList_loop.simps [of h d i tags]
  show ?thesis
  proof (cases "readString h (drop i d)")
    case (Inl x)
    with assms s show ?thesis by simp
  next
    case (Inr o1)
    show ?thesis
    proof (cases o1)
      case None
      with Inr assms s show ?thesis by simp
    next
      case (Some p)
      obtain key keyLen where p: "p = (key, keyLen)" by (cases p)
      show ?thesis
      proof (cases "length d \<le> i + keyLen + 1")
        case True
        with Inr Some p assms s show ?thesis by simp
      next
        case False
        show ?thesis
        proof (cases "readString h (drop (i + keyLen + 1) d)")
          case (Inl x)
          with \<open>readString h (drop i d) = Inr o1\<close> Some p False assms s show ?thesis by simp
        next
          case r2: (Inr o2)
          show ?thesis
          proof (cases o2)
            case None
            with r2 Inr Some p False assms s show ?thesis by simp
          next
            case s2: (Some q)
            obtain val valueLen where q: "q = (val, valueLen)" by (cases q)
            with s2 r2 Inr Some p False assms s show ?thesis by simp
          qed
        qed
      qed
    qed
  qed
qed

lemma decoded_tags_accepted:
  "readTadTagList_loop h d i tags = Inr (ErrorNone, tags') \<Longrightarrow> tags_accepted h tags \<Longrightarrow>
     tags_accepted h tags'"
proof (induction "length d - i" arbitrary: i tags rule: less_induct)
  case less
  show ?case
  proof (cases "i < length d")
    case False
    with less.prems show ?thesis
      by (simp add: readTadTagList_loop_done)
  next
    case True
    from readTadTagList_loop_step [OF True less.prems(1)] obtain key keyLen val valueLen where
      k: "readString h (drop i d) = Inr (Some (key, keyLen))"
      and v: "readString h (drop (i + keyLen + 1) d) = Inr (Some (val, valueLen))"
      and r: "readTadTagList_loop h d (i + keyLen + 1 + valueLen + 1) (TagList_set tags key val)
                = Inr (ErrorNone, tags')"
      by blast
    from k v have "list_all (accepted h) key" and "list_all (accepted h) val"
      by (auto dest: readString_result_accepted)
    with less.prems(2) have a: "tags_accepted h (TagList_set tags key val)"
      by (simp add: TagList_set_accepted)
    from True have "length d - (i + keyLen + 1 + valueLen + 1) < length d - i"
      by simp
    from less.hyps [OF this r a] show ?thesis .
  qed
qed

lemma decoded_tag_block_accepted:
  assumes "readTadTagList h f [] = Inr (ErrorNone, tags, f')"
  shows "tags_accepted h tags"
proof -
  from assms obtain d where "readTadTagList_loop h d 0 [] = Inr (ErrorNone, tags)"
    by (auto simp: readTadTagList_def simp del: readTadTagList_loop.simps
          split: prod.splits if_splits sum.splits)
  moreover have "tags_accepted h []"
    by (simp add: tags_accepted_def)
  ultimately show ?thesis
    by (rule decoded_tags_accepted)
qed

section \<open>A tag list without tags\<close>

text \<open>
  A tag list without tags is written as the length 0 and no payload. The reader then
  calls \<^verbatim>\<open>fread\<close> with the size 0, which returns 0, and takes that for a short
  read: no record with an empty tag list is read back.
\<close>

lemma empty_tag_block_is_a_short_read:
  assumes "8 \<le> length (unread f)" and "u64_of_bytes h (take 8 (unread f)) = 0"
  shows "readTadTagList h f tags = Inr (ErrorSysErrno, tags, f\<lparr>f_pos := f_pos f + 8\<rparr>)"
proof -
  have "fread 8 1 f = (take 8 (unread f), 1, f\<lparr>f_pos := f_pos f + 8\<rparr>)"
    using fread_take [of 8 1 f] assms(1) by simp
  moreover have "fread 0 1 g = ([], 0, g)" for g
    by (simp add: fread_def)
  ultimately show ?thesis
    using assms(2) by (simp add: readTadTagList_def)
qed

lemma plain_array_is_not_read_back:
  "writeArray example_host (opened (fopen_wb 1000)) plain_array =
     Inr (ErrorNone,
          opened \<lparr>f_content = plain_record, f_pos = 54, f_seekable = True, f_space = 946\<rparr>)
   \<and> readArray example_host ErrorNone (-1) (opened (fopen_rb plain_record True)) =
     Some (Inr (ArrayContainer_default, ErrorSysErrno,
                opened ((fopen_rb plain_record True)\<lparr>f_pos := 37\<rparr>)))"
  by (simp add: example_defs plain_array_def plain_record_def write_eval read_eval)

section \<open>The claims\<close>

text \<open>
  C1 (round trip). The claim: writing a container with \<open>writeArray\<close> and reading it
  back with \<open>readArray\<close> yields the same dimensions, component count, type, data and
  tag lists. The code does not do that: \<open>readString\<close> returns in \<open>len\<close> the index
  after the NUL, and \<open>readTadTagList\<close> adds one more to it, so every value is read
  from its second byte on. The array \<open>example_array\<close> with the printable tags
  \<open>k = v\<close>, \<open>a = b\<close>, \<open>c = d\<close> is written as the 66 bytes \<open>example_record\<close> and
  comes back, without an error, with the three values empty.
\<close>

theorem roundtrip_loses_tag_values:
  "writeArray example_host (opened (fopen_wb 1000)) example_array =
     Inr (ErrorNone,
          opened \<lparr>f_content = example_record, f_pos = 66, f_seekable = True, f_space = 934\<rparr>)
   \<and> readArray example_host ErrorNone (-1) (opened (fopen_rb example_record True)) =
     Some (Inr (example_array\<lparr>globalTagList := [([0x6B], [])],
                               componentTagList := [[([0x61], [])]],
                               dimensionTagList := [[([0x63], [])]]\<rparr>,
                ErrorNone,
                opened ((fopen_rb example_record True)\<lparr>f_pos := 66\<rparr>)))
   \<and> globalTagList example_array = [([0x6B], [0x76])]"
proof -
  have "readArray example_host ErrorNone (-1) (opened (fopen_rb example_record True)) =
     Some (Inr (example_array\<lparr>globalTagList := [([0x6B], [])],
                               componentTagList := [[([0x61], [])]],
                               dimensionTagList := [[([0x63], [])]]\<rparr>,
                ErrorNone,
                opened ((fopen_rb example_record True)\<lparr>f_pos := 66\<rparr>)))"
    by (simp add: example_defs read_eval)
  moreover have "globalTagList example_array = [([0x6B], [0x76])]"
    by (simp add: example_array_def)
  ultimately show ?thesis
    using example_array_written by simp
qed

text \<open>
  C2 (record counting). The claim: after K records were written, \<open>arrayCount\<close> on the
  reopened seekable stream returns K. For K = 1 and the record of \<open>flagged_array\<close>,
  whose tag \<open>k\<close> has the empty value, the scan stops in the first tag block:
  \<open>arrayCount\<close> returns \<open>-1\<close>, caches nothing and leaves the stream at offset 40.
\<close>

theorem arrayCount_misses_written_record:
  "writeArray example_host (opened (fopen_wb 1000)) flagged_array =
     Inr (ErrorNone,
          opened \<lparr>f_content = flagged_record, f_pos = 63, f_seekable = True, f_space = 937\<rparr>)
   \<and> arrayCount example_host (opened (fopen_rb flagged_record True)) =
     Some (Inr (-1, opened ((fopen_rb flagged_record True)\<lparr>f_pos := 40\<rparr>)))"
proof -
  have "arrayCount example_host (opened (fopen_rb flagged_record True)) =
     Some (Inr (-1, opened ((fopen_rb flagged_record True)\<lparr>f_pos := 40\<rparr>)))"
    by (simp add: example_defs read_eval count_eval)
  then show ?thesis
    using flagged_array_written by simp
qed

text \<open>
  C3 (indexed access). The claim: \<open>readArray(i)\<close> returns the i-th written container,
  whatever was read in sequence before. On the stream that holds the record of
  \<open>example_array\<close>, after one sequential read has moved the stream to offset 66,
  \<open>readArray(0)\<close> counts one record, seeks to offset 0 and returns, without an error,
  a container whose three tag values are empty.
\<close>

theorem readArray_index_loses_tag_values:
  "readArray example_host ErrorNone 0 (opened ((fopen_rb example_record True)\<lparr>f_pos := 66\<rparr>)) =
     Some (Inr (example_array\<lparr>globalTagList := [([0x6B], [])],
                               componentTagList := [[([0x61], [])]],
                               dimensionTagList := [[([0x63], [])]]\<rparr>,
                ErrorNone,
                \<lparr>tad_f = Some ((fopen_rb example_record True)\<lparr>f_pos := 66\<rparr>),
                 tad_arrayCount = 1, tad_arrayOffsets = [0]\<rparr>))"
  by (simp add: example_defs read_eval count_eval)

text \<open>
  C4 (layout of a written record). For every container that satisfies the class
  invariant, on a stream that has room for the record, \<open>writeArray\<close> hands to the
  stream exactly the record layout of the format description, after what the stream
  held before: the magic \<open>T A D\<close>, a zero byte, the type code byte, the component
  count, the dimension count and each dimension size in order, each as eight bytes in
  the byte order of the host, then the global tag block, the tag blocks of the
  components in index order, those of the dimensions in index order, and the data
  bytes as they are. It accepts the container (returns \<open>ErrorNone\<close>) when there are
  data bytes; for a container without data it has written the whole record when the
  \<^verbatim>\<open>fwrite\<close> of zero bytes makes it return \<open>ErrorSysErrno\<close>.
\<close>

theorem writeArray_emits_record_layout:
  assumes "wf_container h a"
    and "tad_f st = Some f"
    and "length (record_layout h a) \<le> f_space f"
  shows "writeArray h st a =
     Inr (if 0 < dataSize h a then ErrorNone else ErrorSysErrno,
          st\<lparr>tad_f := Some (stream_after f (record_layout h a))\<rparr>)"
proof -
  from assms(1) have "length (componentTagList a) = componentCount a"
    and "length (dimensionTagList a) = dimensionCount a"
    and "length (data a) = dataSize h a"
    by (simp_all add: wf_container_def)
  from writeTad_fits [OF this assms(3)] assms(2) show ?thesis
    by (simp add: writeArray_def)
qed

theorem writeArray_emits_record_layout_witness:
  "wf_container example_host grid_array
   \<and> wf_container example_host hollow_array
   \<and> tad_f (opened (fopen_wb 1000)) = Some (fopen_wb 1000)
   \<and> length (record_layout example_host grid_array) \<le> f_space (fopen_wb 1000)
   \<and> length (record_layout example_host hollow_array) \<le> f_space (fopen_wb 1000)
   \<and> record_layout example_host grid_array = grid_record
   \<and> record_layout example_host hollow_array = hollow_record
   \<and> writeArray example_host (opened (fopen_wb 1000)) grid_array =
       Inr (ErrorNone,
            opened \<lparr>f_content = grid_record, f_pos = 109, f_seekable = True, f_space = 891\<rparr>)
   \<and> writeArray example_host (opened (fopen_wb 1000)) hollow_array =
       Inr (ErrorSysErrno,
            opened \<lparr>f_content = hollow_record, f_pos = 97, f_seekable = True, f_space = 903\<rparr>)"
proof -
  have wg: "wf_container example_host grid_array"
    by (simp add: wf_container_def example_host_def grid_array_def dimensionCount_def
          dataSize_def)
  have wh: "wf_container example_host hollow_array"
    by (simp add: wf_container_def example_host_def hollow_array_def grid_array_def
          dimensionCount_def dataSize_def)
  have o: "tad_f (opened (fopen_wb 1000)) = Some (fopen_wb 1000)"
    by (simp add: opened_def)
  have lg: "record_layout example_host grid_array = grid_record"
    by (simp add: layout_eval example_host_def grid_array_def grid_record_def)
  have lh: "record_layout example_host hollow_array = hollow_record"
    by (simp add: layout_eval example_host_def hollow_array_def grid_array_def hollow_record_def)
  have sg: "length (record_layout example_host grid_array) \<le> f_space (fopen_wb 1000)"
    by (simp add: lg grid_record_def fopen_wb_def)
  have sh: "length (record_layout example_host hollow_array) \<le> f_space (fopen_wb 1000)"
    by (simp add: lh hollow_record_def fopen_wb_def)
  have dg: "0 < dataSize example_host grid_array"
    by (simp add: dataSize_def example_host_def grid_array_def)
  have dh: "\<not> 0 < dataSize example_host hollow_array"
    by (simp add: dataSize_def example_host_def hollow_array_def grid_array_def)
  from writeArray_emits_record_layout [OF wg o sg] dg
  have rg: "writeArray example_host (opened (fopen_wb 1000)) grid_array =
       Inr (ErrorNone,
            opened \<lparr>f_content = grid_record, f_pos = 109, f_seekable = True, f_space = 891\<rparr>)"
    by (simp add: lg) (simp add: stream_after_def opened_def fopen_wb_def grid_record_def)
  from writeArray_emits_record_layout [OF wh o sh] dh
  have rh: "writeArray example_host (opened (fopen_wb 1000)) hollow_array =
       Inr (ErrorSysErrno,
            opened \<lparr>f_content = hollow_record, f_pos = 97, f_seekable = True, f_space = 903\<rparr>)"
    by (simp add: lh) (simp add: stream_after_def opened_def fopen_wb_def hollow_record_def)
  from wg wh o sg sh lg lh rg rh show ?thesis
    by blast
qed

text \<open>
  C5 (corrupt input), as the code has it. The claim gives invalid-data for every
  corruption it lists; the code gives it for the preamble, and answers a tag block
  that is longer than the rest of the stream with the error of a short read. Stated
  for a sequential read (negative index) on an open stream:
  \<^item> if at least 21 bytes are left and the magic bytes are altered, or the reserved
    byte is nonzero, or the type code is 16 or more, \<open>readArray\<close> returns
    \<open>ErrorInvalidData\<close> and the empty container, 21 bytes further on;
  \<^item> if the stream holds a header the reader accepts, then \<open>k\<close> tag blocks that
    decode (\<open>k\<close> at most the number of component and dimension tag lists), then a tag
    block whose declared length, one the host can represent and allocate, exceeds the
    bytes that are left, \<open>readArray\<close> returns \<open>ErrorSysErrno\<close> and the empty
    container.
  In both cases no container is built from the corrupt bytes.
\<close>

theorem sequential_read_rejects_corrupt_record:
  assumes "tad_f st = Some f" and "arrayIndex < 0"
  shows "(21 \<le> length (unread f) \<and> preamble_corrupt (unread f) \<longrightarrow>
            readArray h err arrayIndex st =
              Some (Inr (ArrayContainer_default, ErrorInvalidData,
                         st\<lparr>tad_f := Some (f\<lparr>f_pos := f_pos f + 21\<rparr>)\<rparr>)))
       \<and> (header_fields_ok h a \<and> unread f = record_header h a @ rest
            \<and> k \<le> componentCount a + length (dimensions a)
            \<and> truncated_after h k (f\<lparr>f_pos := f_pos f + length (record_header h a)\<rparr>) \<longrightarrow>
            (\<exists>st'. readArray h err arrayIndex st =
                     Some (Inr (ArrayContainer_default, ErrorSysErrno, st'))))"
proof (intro conjI impI)
  assume "21 \<le> length (unread f) \<and> preamble_corrupt (unread f)"
  then have "readTadHeader h f ArrayContainer_default =
      Inr (ErrorInvalidData, ArrayContainer_default, f\<lparr>f_pos := f_pos f + 21\<rparr>)"
    by (simp add: readTadHeader_corrupt_preamble)
  then show "readArray h err arrayIndex st =
      Some (Inr (ArrayContainer_default, ErrorInvalidData,
                 st\<lparr>tad_f := Some (f\<lparr>f_pos := f_pos f + 21\<rparr>)\<rparr>))"
    by (simp add: readArray_sequential [OF assms])
next
  assume "header_fields_ok h a \<and> unread f = record_header h a @ rest
            \<and> k \<le> componentCount a + length (dimensions a)
            \<and> truncated_after h k (f\<lparr>f_pos := f_pos f + length (record_header h a)\<rparr>)"
  then obtain a' f' where
    "readTadHeader h f ArrayContainer_default = Inr (ErrorSysErrno, a', f')"
    using readTadHeader_truncated_tag_block [of h a f rest k ArrayContainer_default] by blast
  then show "\<exists>st'. readArray h err arrayIndex st =
      Some (Inr (ArrayContainer_default, ErrorSysErrno, st'))"
    by (simp add: readArray_sequential [OF assms])
qed

theorem sequential_read_rejects_corrupt_record_witness:
  "21 \<le> length (unread (fopen_rb bad_magic_record True))
   \<and> preamble_corrupt (unread (fopen_rb bad_magic_record True))
   \<and> readArray example_host ErrorNone (-1) (opened (fopen_rb bad_magic_record True)) =
       Some (Inr (ArrayContainer_default, ErrorInvalidData,
                  opened ((fopen_rb bad_magic_record True)\<lparr>f_pos := 21\<rparr>)))
   \<and> header_fields_ok example_host example_array
   \<and> unread (fopen_rb truncated_component_record True) =
       record_header example_host example_array
       @ [4, 0, 0, 0, 0, 0, 0, 0, 0x6B, 0, 0x76, 0, 5, 0, 0, 0, 0, 0, 0, 0, 0x61, 0]
   \<and> truncated_after example_host 1 ((fopen_rb truncated_component_record True)\<lparr>f_pos := 29\<rparr>)
   \<and> (\<exists>st'. readArray example_host ErrorNone (-1)
                (opened (fopen_rb truncated_component_record True)) =
              Some (Inr (ArrayContainer_default, ErrorSysErrno, st')))"
proof -
  let ?b = "fopen_rb bad_magic_record True" and ?t = "fopen_rb truncated_component_record True"
  have b1: "21 \<le> length (unread ?b)" and b2: "preamble_corrupt (unread ?b)"
    by (simp_all add: unread_def fopen_rb_def bad_magic_record_def preamble_corrupt_def)
  have ok: "header_fields_ok example_host example_array"
    by (simp add: header_fields_ok_def example_host_def example_array_def dataSize_def)
  have hd: "record_header example_host example_array =
      [0x54, 0x41, 0x44, 0, 1,  1, 0, 0, 0, 0, 0, 0, 0,  1, 0, 0, 0, 0, 0, 0, 0,
       1, 0, 0, 0, 0, 0, 0, 0]"
    by (simp add: tad_start_header [symmetric] tad_start_def example_host_def example_array_def
          u64_bytes_def dimensionCount_def le_bytes_8)
  have u: "unread ?t = record_header example_host example_array
      @ [4, 0, 0, 0, 0, 0, 0, 0, 0x6B, 0, 0x76, 0, 5, 0, 0, 0, 0, 0, 0, 0, 0x61, 0]"
    by (simp add: hd unread_def fopen_rb_def truncated_component_record_def)
  have "truncated_after example_host (Suc 0) (?t\<lparr>f_pos := 29\<rparr>)"
    by (simp add: tag_block_truncated_def unread_def fopen_rb_def truncated_component_record_def
          example_host_def tag_eval)
  then have t: "truncated_after example_host 1 (?t\<lparr>f_pos := 29\<rparr>)"
    by simp
  have p: "f_pos ?t + length (record_header example_host example_array) = 29"
    by (simp add: hd fopen_rb_def)
  have t': "truncated_after example_host 1
      (?t\<lparr>f_pos := f_pos ?t + length (record_header example_host example_array)\<rparr>)"
    unfolding p by (rule t)
  have ob: "tad_f (opened ?b) = Some ?b" and ot: "tad_f (opened ?t) = Some ?t"
    by (simp_all add: opened_def)
  have n: "(-1::int) < 0" by simp
  have k: "(1::nat) \<le> componentCount example_array + length (dimensions example_array)"
    by (simp add: example_array_def)
  from sequential_read_rejects_corrupt_record [OF ob n, where h = example_host and err = ErrorNone]
    b1 b2
  have r1: "readArray example_host ErrorNone (-1) (opened ?b) =
      Some (Inr (ArrayContainer_default, ErrorInvalidData, opened (?b\<lparr>f_pos := 21\<rparr>)))"
    by (simp add: opened_def fopen_rb_def)
  from sequential_read_rejects_corrupt_record
    [OF ot n, where h = example_host and a = example_array and k = 1 and err = ErrorNone]
    ok u k t'
  have r2: "\<exists>st'. readArray example_host ErrorNone (-1) (opened ?t) =
      Some (Inr (ArrayContainer_default, ErrorSysErrno, st'))"
    by blast
  from b1 b2 r1 ok u t r2 show ?thesis
    by blast
qed

theorem truncated_tag_block_is_a_system_error:
  "readArray example_host ErrorNone (-1) (opened (fopen_rb truncated_record True)) =
     Some (Inr (ArrayContainer_default, ErrorSysErrno,
                opened ((fopen_rb truncated_record True)\<lparr>f_pos := 39\<rparr>)))"
  by (simp add: example_defs truncated_record_def read_eval)

text \<open>
  C6 (control characters). The claim: a tag block with a byte below 32 or equal to 127
  inside a key or a value fails to decode with invalid-data. The tag \<open>k\<close> whose value
  is the single byte 0x07 is written as the block of length 4 with payload
  \<open>6B 00 07 00\<close>; decoding that block reads the value from its second byte on, never
  looks at 0x07 and returns \<open>ErrorNone\<close> with the tag \<open>k\<close> of empty value.
\<close>

theorem control_byte_accepted:
  "writeTadTagList example_host (fopen_wb 100) [([0x6B], [0x07])] =
     (True, \<lparr>f_content = [4, 0, 0, 0, 0, 0, 0, 0, 0x6B, 0, 0x07, 0], f_pos = 12,
             f_seekable = True, f_space = 88\<rparr>)
   \<and> readTadTagList example_host (fopen_rb [4, 0, 0, 0, 0, 0, 0, 0, 0x6B, 0, 0x07, 0] True) [] =
     Inr (ErrorNone, [([0x6B], [])],
          (fopen_rb [4, 0, 0, 0, 0, 0, 0, 0, 0x6B, 0, 0x07, 0] True)\<lparr>f_pos := 12\<rparr>)"
  by (simp add: example_defs write_eval tag_eval)

text \<open>
  C7 (decoding stays inside the payload). The claim: decoding a tag block of declared
  length n never reads outside its n bytes and fails with invalid-data when a string
  is not terminated inside them. For the block of length 1 whose payload is the byte
  \<open>A\<close>, \<open>readString\<close> reads index 1 of a vector of one element.
\<close>

theorem unterminated_string_read_past_payload:
  "readTadTagList example_host (fopen_rb [1, 0, 0, 0, 0, 0, 0, 0, 0x41] True) [] = Inl OutOfBounds"
  by (simp add: example_defs tag_eval)

text \<open>
  C8 (sequential-only stream). The claim: on a medium that cannot seek, sequential
  reads succeed in record order, \<open>arrayCount\<close> reports "unknown" and an indexed read
  fails with seeking-not-supported. The last two hold; the first does not: on a pipe
  that delivers the record of \<open>flagged_array\<close>, the sequential read fails with
  \<open>ErrorInvalidData\<close>.
\<close>

theorem sequential_read_on_pipe_fails:
  "readArray example_host ErrorNone (-1) (opened (fopen_rb flagged_record False)) =
     Some (Inr (ArrayContainer_default, ErrorInvalidData,
                opened ((fopen_rb flagged_record False)\<lparr>f_pos := 40\<rparr>)))
   \<and> arrayCount example_host (opened (fopen_rb flagged_record False)) =
     Some (Inr (-1, \<lparr>tad_f = Some (fopen_rb flagged_record False), tad_arrayCount = -1,
                     tad_arrayOffsets = []\<rparr>))
   \<and> readArray example_host ErrorNone 0 (opened (fopen_rb flagged_record False)) =
     Some (Inr (ArrayContainer_default, ErrorSeekingNotSupported,
                \<lparr>tad_f = Some (fopen_rb flagged_record False), tad_arrayCount = -1,
                 tad_arrayOffsets = []\<rparr>))"
  by (simp add: example_defs read_eval count_eval)

text \<open>
  C9 (what the JPEG codec refuses). \<open>openForWriting\<close> with the append flag set
  returns \<open>ErrorFeaturesUnsupported\<close> and leaves the object as it was; \<open>writeArray\<close>
  returns \<open>ErrorFeaturesUnsupported\<close>, without calling libjpeg, for every container
  that is not two-dimensional with both dimensions in [1, 2^31-1], of component type
  uint8 and with exactly 1 or 3 components.
\<close>

theorem JPEG_refuses_append_and_shapes:
  "JPEG_openForWriting st fileName True out fo = (ErrorFeaturesUnsupported, st)
   \<and> (\<not> jpeg_encodable uint8 a \<longrightarrow>
        JPEG_writeArray uint8 libjpeg st a = (ErrorFeaturesUnsupported, st))"
proof (intro conjI impI)
  show "JPEG_openForWriting st fileName True out fo = (ErrorFeaturesUnsupported, st)"
    by (simp add: JPEG_openForWriting_def)
next
  assume n: "\<not> jpeg_encodable uint8 a"
  show "JPEG_writeArray uint8 libjpeg st a = (ErrorFeaturesUnsupported, st)"
  proof (cases "length (dimensions a) = 2")
    case False
    then show ?thesis
      by (simp add: JPEG_writeArray_def differs_def dimensionCount_def)
  next
    case True
    then obtain x y where d: "dimensions a = [x, y]"
      by (auto simp: length_Suc_conv numeral_2_eq_2)
    with n have "x = 0 \<or> y = 0 \<or> 2 ^ 31 - 1 < x \<or> 2 ^ 31 - 1 < y
        \<or> componentType a \<noteq> uint8 \<or> (componentCount a \<noteq> 1 \<and> componentCount a \<noteq> 3)"
      by (auto simp: jpeg_encodable_def)
    with d show ?thesis
      by (auto simp: JPEG_writeArray_def differs_def dimensionCount_def dimension_def)
  qed
qed

theorem JPEG_refuses_append_and_shapes_witness:
  "\<not> jpeg_encodable 1 example_array
   \<and> JPEG_openForWriting \<lparr>jpeg_f = None, jpeg_fileName = []\<rparr> ''x.jpg'' True (fopen_wb 0) None =
       (ErrorFeaturesUnsupported, \<lparr>jpeg_f = None, jpeg_fileName = []\<rparr>)
   \<and> JPEG_writeArray 1 (\<lambda>a f. (JpegWritten, f)) \<lparr>jpeg_f = None, jpeg_fileName = []\<rparr>
         example_array =
       (ErrorFeaturesUnsupported, \<lparr>jpeg_f = None, jpeg_fileName = []\<rparr>)"
proof -
  have n: "\<not> jpeg_encodable 1 example_array"
    by (simp add: jpeg_encodable_def example_array_def)
  with JPEG_refuses_append_and_shapes
    [of "\<lparr>jpeg_f = None, jpeg_fileName = []\<rparr>" "''x.jpg''" "fopen_wb 0" None 1 example_array
        "\<lambda>a f. (JpegWritten, f)"]
  show ?thesis
    by simp
qed

text \<open>
  C10 (bytes from 128 on). The claim: with a signed \<^verbatim>\<open>char\<close>, every key or value byte
  of 128 or more makes the decoding of the tag block fail with invalid-data. On the
  host with signed \<^verbatim>\<open>char\<close>, the block with payload \<open>6B 00 80 00\<close> (the tag \<open>k\<close>
  whose value is the byte 0x80) decodes with \<open>ErrorNone\<close>: the value is read from its
  second byte on.
\<close>

theorem high_byte_accepted:
  "char_signed example_host
   \<and> readTadTagList example_host (fopen_rb [4, 0, 0, 0, 0, 0, 0, 0, 0x6B, 0, 0x80, 0] True) [] =
     Inr (ErrorNone, [([0x6B], [])],
          (fopen_rb [4, 0, 0, 0, 0, 0, 0, 0, 0x6B, 0, 0x80, 0] True)\<lparr>f_pos := 12\<rparr>)"
  by (simp add: example_defs tag_eval)

end
